theory Spec2Isabelle
  imports Main
begin

section \<open>Exceptions\<close>

text \<open>
  The classes of \<^verbatim>\<open>requests.exceptions\<close> that a call of the HTTP library can raise.
  \<^verbatim>\<open>RequestException\<close> is the root; \<^verbatim>\<open>ConnectTimeout\<close> inherits from both
  \<^verbatim>\<open>ConnectionError\<close> and \<^verbatim>\<open>Timeout\<close>.
\<close>

datatype requests_exception =
    RequestException
  | InvalidJSONError
  | JSONDecodeError
  | HTTPError
  | ConnectionError
  | ProxyError
  | SSLError
  | Timeout
  | ConnectTimeout
  | ReadTimeout
  | URLRequired
  | TooManyRedirects
  | MissingSchema
  | InvalidSchema
  | InvalidURL
  | InvalidProxyURL
  | InvalidHeader
  | ChunkedEncodingError
  | ContentDecodingError
  | StreamConsumedError
  | RetryError
  | UnrewindableBodyError

text \<open>
  Modelled from the spec: the module \<^verbatim>\<open>exceptions\<close> that declares
  \<^verbatim>\<open>BusinessLogicException\<close> and \<^verbatim>\<open>DalException\<close> is not among the sources. They are
  taken as two distinct exception classes of the application, unrelated to the classes of the
  HTTP library and to Python's built-in exceptions; the spec calls the error they signal the
  data-access failure.
\<close>

datatype exn =
    Requests requests_exception
  | KeyError
  | IndexError
  | ValueError
  | TypeError
  | OverflowError
  | BusinessLogicException
  | DalException

text \<open>\<open>issubclass e c\<close>: an exception of class \<open>e\<close> is caught by \<^verbatim>\<open>except c\<close>.\<close>

fun parents :: "requests_exception \<Rightarrow> requests_exception list" where
  "parents RequestException = []"
| "parents JSONDecodeError = [InvalidJSONError]"
| "parents ProxyError = [ConnectionError]"
| "parents SSLError = [ConnectionError]"
| "parents ConnectTimeout = [ConnectionError, Timeout]"
| "parents ReadTimeout = [Timeout]"
| "parents InvalidProxyURL = [InvalidURL]"
| "parents e = [RequestException]"

definition issubclass :: "requests_exception \<Rightarrow> requests_exception \<Rightarrow> bool" where
  "issubclass e c \<longleftrightarrow>
     e = c \<or> c \<in> set (parents e) \<or> (\<exists>p \<in> set (parents e). c \<in> set (parents p))"

section \<open>Calendar dates\<close>

text \<open>
  The date part of a \<^verbatim>\<open>datetime\<close>. No branch of the program reads the time of day, and
  \<^verbatim>\<open>timedelta(days=...)\<close> leaves it unchanged, so it is not carried.
\<close>

record date =
  year :: nat
  month :: nat
  day :: nat

definition is_leap :: "nat \<Rightarrow> bool" where
  "is_leap y \<longleftrightarrow> y mod 4 = 0 \<and> (y mod 100 \<noteq> 0 \<or> y mod 400 = 0)"

definition days_in_month :: "nat \<Rightarrow> nat \<Rightarrow> nat" where
  "days_in_month y m =
     (if m = 2 then (if is_leap y then 29 else 28)
      else if m = 4 \<or> m = 6 \<or> m = 9 \<or> m = 11 then 30 else 31)"

text \<open>The dates a \<^verbatim>\<open>datetime\<close> can hold: years 1 (\<^verbatim>\<open>MINYEAR\<close>) to 9999 (\<^verbatim>\<open>MAXYEAR\<close>).\<close>

definition valid_date :: "date \<Rightarrow> bool" where
  "valid_date d \<longleftrightarrow>
     1 \<le> year d \<and> year d \<le> 9999 \<and> 1 \<le> month d \<and> month d \<le> 12 \<and>
     1 \<le> day d \<and> day d \<le> days_in_month (year d) (month d)"

text \<open>
  \<^verbatim>\<open>today - timedelta(days=n)\<close>: the date \<open>n\<close> days earlier in the proleptic Gregorian
  calendar, \<^verbatim>\<open>OverflowError\<close> when that would lie before 1 January of year 1.
\<close>

definition prev_day :: "date \<Rightarrow> exn + date" where
  "prev_day d =
     (if 1 < day d then Inr (d\<lparr>day := day d - 1\<rparr>)
      else if 1 < month d then
        Inr \<lparr>year = year d, month = month d - 1, day = days_in_month (year d) (month d - 1)\<rparr>
      else if 1 < year d then Inr \<lparr>year = year d - 1, month = 12, day = 31\<rparr>
      else Inl OverflowError)"

fun sub_days :: "date \<Rightarrow> nat \<Rightarrow> exn + date" where
  "sub_days d 0 = Inr d"
| "sub_days d (Suc n) = (case prev_day d of Inl e \<Rightarrow> Inl e | Inr d' \<Rightarrow> sub_days d' n)"

text \<open>The position of a date in its year, counted from 1 on 1 January.\<close>

definition days_before_month :: "nat \<Rightarrow> nat \<Rightarrow> nat" where
  "days_before_month y m = sum_list (map (days_in_month y) [1..<m])"

definition day_of_year :: "date \<Rightarrow> nat" where
  "day_of_year d = days_before_month (year d) (month d) + day d"

text \<open>The last day of a calendar quarter.\<close>

definition is_quarter_end :: "date \<Rightarrow> bool" where
  "is_quarter_end q \<longleftrightarrow>
     (month q = 3 \<and> day q = 31) \<or> (month q = 6 \<and> day q = 30) \<or>
     (month q = 9 \<and> day q = 30) \<or> (month q = 12 \<and> day q = 31)"

subsection \<open>Formatting and parsing\<close>

text \<open>\<^verbatim>\<open>str(n)\<close> for a non-negative integer: its decimal digits.\<close>

definition digit_char :: "nat \<Rightarrow> char" where
  "digit_char k = char_of (48 + k)"

fun str_nat :: "nat \<Rightarrow> string" where
  "str_nat n = (if n < 10 then [digit_char n] else str_nat (n div 10) @ [digit_char (n mod 10)])"

declare str_nat.simps [simp del]

definition is_digit :: "char \<Rightarrow> bool" where
  "is_digit c \<longleftrightarrow> 48 \<le> (of_char c :: nat) \<and> (of_char c :: nat) \<le> 57"

definition digit_val :: "char \<Rightarrow> nat" where
  "digit_val c = of_char c - 48"

definition in_range :: "char \<Rightarrow> nat \<Rightarrow> nat \<Rightarrow> bool" where
  "in_range c lo hi \<longleftrightarrow> is_digit c \<and> lo \<le> digit_val c \<and> digit_val c \<le> hi"

text \<open>
  \<^verbatim>\<open>datetime.strptime(s, '%Y-%m-%d').date()\<close>. The format compiles to the regular expression
  \<^verbatim>\<open>(\d\d\d\d)-(1[0-2]|0[1-9]|[1-9])-(3[0-1]|[1-2]\d|0[1-9]|[1-9]| [1-9])\<close>, matched at the
  start of \<open>s\<close> with the alternatives tried in this order; text left over, no match, year 0
  and a day beyond the month's length all raise \<^verbatim>\<open>ValueError\<close>. The year is exactly four
  digits. Characters are ASCII.
\<close>

fun match_month :: "string \<Rightarrow> (nat \<times> string) option" where
  "match_month (a # b # r) =
     (if a = CHR ''1'' \<and> in_range b 0 2 then Some (10 + digit_val b, r)
      else if a = CHR ''0'' \<and> in_range b 1 9 then Some (digit_val b, r)
      else if in_range a 1 9 then Some (digit_val a, b # r)
      else None)"
| "match_month [a] = (if in_range a 1 9 then Some (digit_val a, []) else None)"
| "match_month [] = None"

fun match_day :: "string \<Rightarrow> (nat \<times> string) option" where
  "match_day (a # b # r) =
     (if a = CHR ''3'' \<and> in_range b 0 1 then Some (30 + digit_val b, r)
      else if in_range a 1 2 \<and> is_digit b then Some (10 * digit_val a + digit_val b, r)
      else if a = CHR ''0'' \<and> in_range b 1 9 then Some (digit_val b, r)
      else if in_range a 1 9 then Some (digit_val a, b # r)
      else if a = CHR '' '' \<and> in_range b 1 9 then Some (digit_val b, r)
      else None)"
| "match_day [a] = (if in_range a 1 9 then Some (digit_val a, []) else None)"
| "match_day [] = None"

definition make_date :: "nat \<Rightarrow> nat \<Rightarrow> nat \<Rightarrow> exn + date" where
  "make_date y m d =
     (if 1 \<le> y \<and> 1 \<le> d \<and> d \<le> days_in_month y m
      then Inr \<lparr>year = y, month = m, day = d\<rparr> else Inl ValueError)"

fun strptime_ymd :: "string \<Rightarrow> exn + date" where
  "strptime_ymd (y1 # y2 # y3 # y4 # sep # r) =
     (if is_digit y1 \<and> is_digit y2 \<and> is_digit y3 \<and> is_digit y4 \<and> sep = CHR ''-'' then
        (case match_month r of
           None \<Rightarrow> Inl ValueError
         | Some (m, r') \<Rightarrow>
             (case r' of
                [] \<Rightarrow> Inl ValueError
              | sep' # r'' \<Rightarrow>
                  if sep' = CHR ''-'' then
                    (case match_day r'' of
                       None \<Rightarrow> Inl ValueError
                     | Some (d, rest) \<Rightarrow>
                         if rest = [] then
                           make_date
                             (1000 * digit_val y1 + 100 * digit_val y2 + 10 * digit_val y3
                                + digit_val y4) m d
                         else Inl ValueError)
                  else Inl ValueError))
      else Inl ValueError)"
| "strptime_ymd s = Inl ValueError"

section \<open>Floating-point numbers\<close>

text \<open>
  A Python \<^verbatim>\<open>float\<close> is an IEEE 754 double. \<open>Finite s m e\<close> is the number \<open>m * 2 ^ e\<close>, negative
  when the sign bit \<open>s\<close> is set (both zeros exist); doubles are the values with
  \<open>m < 2 ^ 53\<close> and \<open>- 1074 \<le> e\<close> below \<open>2 ^ 1024\<close>.
\<close>

datatype pyfloat = Finite bool int int | Infinity bool | NaN

text \<open>The number of binary digits of a positive integer.\<close>

function bits :: "int \<Rightarrow> int" where
  "bits n = (if n \<le> 0 then 0 else 1 + bits (n div 2))"
  by pat_completeness auto
termination
  by (relation "measure nat") auto

declare bits.simps [simp del]

definition shl :: "int \<Rightarrow> int \<Rightarrow> int" where
  "shl n k = (if 0 < k then n * 2 ^ nat k else n)"

text \<open>The integer nearest to \<open>a / b\<close>, the even one of the two when \<open>a / b\<close> lies half-way.\<close>

definition div_half_even :: "int \<Rightarrow> int \<Rightarrow> int" where
  "div_half_even a b =
     (let d = a div b; r = a mod b
      in if 2 * r < b then d else if b < 2 * r then d + 1 else if even d then d else d + 1)"

text \<open>The integer \<open>k\<close> with \<open>2 ^ k \<le> p / q < 2 ^ (k + 1)\<close>, for positive \<open>p\<close> and \<open>q\<close>.\<close>

definition floor_log2 :: "int \<Rightarrow> int \<Rightarrow> int" where
  "floor_log2 p q =
     (let k = bits p - bits q
      in if shl q k \<le> shl p (- k) then k else k - 1)"

text \<open>
  Rounding the non-negative fraction \<open>p / q\<close> to the nearest double, ties to even: a
  significand of 53 bits, or what the least exponent leaves of it for a subnormal number.
  \<open>None\<close> when the result is beyond the largest double.
\<close>

definition round_double :: "int \<Rightarrow> int \<Rightarrow> (int \<times> int) option" where
  "round_double p q =
     (if p = 0 then Some (0, 0)
      else let s = max (floor_log2 p q) (- 1022) - 52;
               n = div_half_even (shl p (- s)) (shl q s)
           in if 1024 < bits n + s then None else Some (n, s))"

text \<open>The product of two floats.\<close>

fun fmul :: "pyfloat \<Rightarrow> pyfloat \<Rightarrow> pyfloat" where
  "fmul (Finite s m e) (Finite t n f) =
     (case round_double (shl (m * n) (e + f)) (shl 1 (- (e + f))) of
        None \<Rightarrow> Infinity (s \<noteq> t)
      | Some (k, g) \<Rightarrow> Finite (s \<noteq> t) k g)"
| "fmul (Finite s m e) (Infinity t) = (if m = 0 then NaN else Infinity (s \<noteq> t))"
| "fmul (Infinity s) (Finite t n f) = (if n = 0 then NaN else Infinity (s \<noteq> t))"
| "fmul (Infinity s) (Infinity t) = Infinity (s \<noteq> t)"
| "fmul NaN y = NaN"
| "fmul x NaN = NaN"

subsection \<open>Text to float\<close>

function str_int :: "int \<Rightarrow> string" where
  "str_int n =
     (if n < 10 then [digit_char (nat n)] else str_int (n div 10) @ [digit_char (nat (n mod 10))])"
  by pat_completeness auto
termination
  by (relation "measure nat") auto

declare str_int.simps [simp del]

definition dec_val :: "string \<Rightarrow> int" where
  "dec_val ds = foldl (\<lambda>n c. 10 * n + int (digit_val c)) 0 ds"

definition is_space :: "char \<Rightarrow> bool" where
  "is_space c \<longleftrightarrow> c \<in> set [CHR '' '', CHR 0x09, CHR 0x0A, CHR 0x0B, CHR 0x0C, CHR 0x0D]"

definition strip :: "string \<Rightarrow> string" where
  "strip s = rev (dropWhile is_space (rev (dropWhile is_space s)))"

text \<open>
  Underscores may stand between two digits and nowhere else; they are removed. The first
  argument is the character before.
\<close>

fun remove_underscores :: "char \<Rightarrow> string \<Rightarrow> string option" where
  "remove_underscores prev [] = (if prev = CHR ''_'' then None else Some [])"
| "remove_underscores prev (c # cs) =
     (if c = CHR ''_'' then
        (if is_digit prev then remove_underscores c cs else None)
      else if prev = CHR ''_'' \<and> \<not> is_digit c then None
      else map_option ((#) c) (remove_underscores c cs))"

definition lower :: "char \<Rightarrow> char" where
  "lower c = (if 65 \<le> (of_char c :: nat) \<and> (of_char c :: nat) \<le> 90
              then char_of ((of_char c :: nat) + 32) else c)"

text \<open>An optional sign: whether it is a minus, and the rest.\<close>

fun split_sign :: "string \<Rightarrow> bool \<times> string" where
  "split_sign (c # cs) =
     (if c = CHR ''-'' then (True, cs) else if c = CHR ''+'' then (False, cs) else (False, c # cs))"
| "split_sign [] = (False, [])"

text \<open>
  The exponent part of a decimal numeral: nothing, or \<^verbatim>\<open>e\<close>, an optional sign and at least one
  digit, up to the end of the text.
\<close>

fun parse_exponent :: "string \<Rightarrow> int option" where
  "parse_exponent [] = Some 0"
| "parse_exponent (c # cs) =
     (if c = CHR ''e'' \<or> c = CHR ''E'' then
        (let (neg, ds) = split_sign cs
         in if ds \<noteq> [] \<and> list_all is_digit ds
            then Some (if neg then - dec_val ds else dec_val ds) else None)
      else None)"

text \<open>
  A decimal numeral \<^verbatim>\<open>digits [. digits] [exponent]\<close> with a digit before or after the point:
  its value as a fraction \<open>(p, q)\<close>.
\<close>

definition parse_decimal :: "string \<Rightarrow> (int \<times> int) option" where
  "parse_decimal s =
     (let ip = takeWhile is_digit s; r1 = dropWhile is_digit s;
          fp = (case r1 of c # t \<Rightarrow> if c = CHR ''.'' then takeWhile is_digit t else [] | [] \<Rightarrow> []);
          r2 = (case r1 of c # t \<Rightarrow> if c = CHR ''.'' then dropWhile is_digit t else r1 | [] \<Rightarrow> [])
      in if ip = [] \<and> fp = [] then None
         else (case parse_exponent r2 of
                 None \<Rightarrow> None
               | Some x \<Rightarrow>
                   (let k = x - int (length fp); d = dec_val (ip @ fp)
                    in Some (if 0 \<le> k then (d * 10 ^ nat k, 1) else (d, 10 ^ nat (- k))))))"

text \<open>
  \<^verbatim>\<open>float(s)\<close> for a string of ASCII characters: surrounding white space is dropped, then
  come an optional sign and \<^verbatim>\<open>inf\<close>, \<^verbatim>\<open>infinity\<close> or \<^verbatim>\<open>nan\<close> in any case, or a decimal numeral,
  which is rounded to the nearest double. \<open>None\<close> is \<^verbatim>\<open>ValueError\<close>.
\<close>

definition float_of_string :: "string \<Rightarrow> pyfloat option" where
  "float_of_string s =
     (case remove_underscores (CHR 0x00) (strip s) of
        None \<Rightarrow> None
      | Some t \<Rightarrow>
          (let (neg, u) = split_sign t; l = map lower u
           in if l = ''inf'' \<or> l = ''infinity'' then Some (Infinity neg)
              else if l = ''nan'' then Some NaN
              else (case parse_decimal u of
                      None \<Rightarrow> None
                    | Some (p, q) \<Rightarrow>
                        (case round_double p q of
                           None \<Rightarrow> Some (Infinity neg)
                         | Some (m, e) \<Rightarrow> Some (Finite neg m e)))))"

text \<open>A float literal of a Python program, such as \<^verbatim>\<open>100.0\<close>.\<close>

definition float_literal :: "string \<Rightarrow> pyfloat" where
  "float_literal s = (case float_of_string s of Some x \<Rightarrow> x | None \<Rightarrow> NaN)"

subsection \<open>Float to text\<close>

text \<open>Commas between groups of three digits, counted from the right.\<close>

fun commas :: "string \<Rightarrow> string" where
  "commas (a # b # c # d # r) = a # b # c # CHR '','' # commas (d # r)"
| "commas s = s"

definition group3 :: "string \<Rightarrow> string" where
  "group3 s = rev (commas (rev s))"

text \<open>
  The format \<^verbatim>\<open>:,.2f\<close>: the exact value rounded to hundredths, ties to even, with the sign bit
  shown.
\<close>

definition format_2f :: "pyfloat \<Rightarrow> string" where
  "format_2f x =
     (case x of
        NaN \<Rightarrow> ''nan''
      | Infinity s \<Rightarrow> (if s then ''-inf'' else ''inf'')
      | Finite s m e \<Rightarrow>
          (let n = div_half_even (shl (100 * m) e) (shl 1 (- e))
           in (if s then ''-'' else '''') @ group3 (str_int (n div 100)) @ ''.''
                @ [digit_char (nat (n mod 100 div 10)), digit_char (nat (n mod 10))]))"

section \<open>Decoded JSON\<close>

text \<open>
  The values \<^verbatim>\<open>response.json()\<close> returns: \<^verbatim>\<open>None\<close>, \<^verbatim>\<open>bool\<close>, \<^verbatim>\<open>int\<close>, \<^verbatim>\<open>float\<close>, \<^verbatim>\<open>str\<close>,
  \<^verbatim>\<open>list\<close> and \<^verbatim>\<open>dict\<close>, whose keys are strings, each once, in the order of the document.
\<close>

datatype json =
    JNull
  | JBool bool
  | JInt int
  | JFloat pyfloat
  | JStr string
  | JArr "json list"
  | JObj "(string \<times> json) list"

text \<open>\<^verbatim>\<open>obj[key]\<close> with a string key: only a \<^verbatim>\<open>dict\<close> can be indexed by a string.\<close>

fun getitem :: "json \<Rightarrow> string \<Rightarrow> exn + json" where
  "getitem (JObj kvs) k = (case map_of kvs k of None \<Rightarrow> Inl KeyError | Some v \<Rightarrow> Inr v)"
| "getitem v k = Inl TypeError"

text \<open>
  \<^verbatim>\<open>for result in obj\<close>: the elements of a list, the keys of a dict, the characters of a
  string; the other values are not iterable.
\<close>

fun iterate :: "json \<Rightarrow> exn + json list" where
  "iterate (JArr xs) = Inr xs"
| "iterate (JObj kvs) = Inr (map (\<lambda>kv. JStr (fst kv)) kvs)"
| "iterate (JStr s) = Inr (map (\<lambda>c. JStr [c]) s)"
| "iterate v = Inl TypeError"

text \<open>\<^verbatim>\<open>datetime.strptime(v, '%Y-%m-%d').date()\<close>: the first argument must be a string.\<close>

fun strptime :: "json \<Rightarrow> exn + date" where
  "strptime (JStr s) = strptime_ymd s"
| "strptime v = Inl TypeError"

text \<open>\<^verbatim>\<open>float(v)\<close>.\<close>

fun py_float :: "json \<Rightarrow> exn + pyfloat" where
  "py_float (JFloat x) = Inr x"
| "py_float (JInt i) =
     (case round_double \<bar>i\<bar> 1 of
        None \<Rightarrow> Inl OverflowError
      | Some (m, e) \<Rightarrow> Inr (Finite (i < 0) m e))"
| "py_float (JBool b) = Inr (Finite False (if b then 1 else 0) 0)"
| "py_float (JStr s) = (case float_of_string s of None \<Rightarrow> Inl ValueError | Some x \<Rightarrow> Inr x)"
| "py_float v = Inl TypeError"

text \<open>
  \<^verbatim>\<open>str(v)\<close>, as an f-string embeds a value. A string is itself; the text of a float, a list
  or a dict is left unspecified (producing it never fails).
\<close>

fun py_str :: "json \<Rightarrow> string" where
  "py_str (JStr s) = s"
| "py_str JNull = ''None''"
| "py_str (JBool b) = (if b then ''True'' else ''False'')"
| "py_str (JInt i) = (if i < 0 then CHR ''-'' # str_int (- i) else str_int i)"
| "py_str v = undefined v"

text \<open>
  Keys of a \<^verbatim>\<open>dict\<close>: lists and dicts cannot be hashed; numbers and booleans are equal as
  keys when their values are. The NaN of a decoded payload is a single object, found again
  as a key by its identity.
\<close>

fun hashable :: "json \<Rightarrow> bool" where
  "hashable (JArr xs) = False"
| "hashable (JObj kvs) = False"
| "hashable v = True"

fun number :: "json \<Rightarrow> pyfloat option" where
  "number (JBool b) = Some (Finite False (if b then 1 else 0) 0)"
| "number (JInt i) = Some (Finite (i < 0) \<bar>i\<bar> 0)"
| "number (JFloat x) = Some x"
| "number v = None"

fun float_eq :: "pyfloat \<Rightarrow> pyfloat \<Rightarrow> bool" where
  "float_eq (Finite s m e) (Finite t n f) =
     ((m = 0 \<and> n = 0) \<or> (s = t \<and> shl m (e - f) = shl n (f - e)))"
| "float_eq (Infinity s) (Infinity t) = (s = t)"
| "float_eq NaN NaN = True"
| "float_eq x y = False"

definition key_eq :: "json \<Rightarrow> json \<Rightarrow> bool" where
  "key_eq a b =
     (case (number a, number b) of
        (Some x, Some y) \<Rightarrow> float_eq x y
      | (None, None) \<Rightarrow> a = b
      | _ \<Rightarrow> False)"

section \<open>The model: a currency\<close>

record currency =
  country_name :: json
  currency_name :: json
  conversion_rate :: json

text \<open>\<^verbatim>\<open>Currency.__init__\<close> stores its three arguments as they are.\<close>

definition Currency :: "json \<Rightarrow> json \<Rightarrow> json \<Rightarrow> currency" where
  "Currency country currency_nm rate =
     \<lparr>country_name = country, currency_name = currency_nm, conversion_rate = rate\<rparr>"

text \<open>An exception leaves the function; otherwise the next statement runs.\<close>

definition and_then :: "exn + 'a \<Rightarrow> ('a \<Rightarrow> exn + 'b) \<Rightarrow> exn + 'b" where
  "and_then r f = (case r of Inl e \<Rightarrow> Inl e | Inr v \<Rightarrow> f v)"

definition convert :: "currency \<Rightarrow> pyfloat \<Rightarrow> exn + string" where
  "convert self usd_amount =
     and_then (py_float (conversion_rate self)) (\<lambda>rate.
       let converted_currency = fmul usd_amount rate
       in Inr (''$'' @ format_2f usd_amount @ '' USD = '' @ format_2f converted_currency
                 @ '' '' @ py_str (currency_name self)))"

section \<open>The data access layer\<close>

record response =
  status_code :: nat
  json_body :: "json option"

text \<open>
  The environment of the program: the wall clock of the machine, as \<^verbatim>\<open>datetime.now()\<close>
  reads it, and what \<^verbatim>\<open>requests.get(url, params)\<close> does, a response or an exception.
\<close>

record clock =
  now :: date

record world = clock +
  http_get :: "string \<Rightarrow> (string \<times> json) list \<Rightarrow> exn + response"

definition BASE_URL :: string where
  "BASE_URL = ''https://api.fiscaldata.treasury.gov/services/api/fiscal_service''"
definition ENDPOINT :: string where
  "ENDPOINT = ''/v1/accounting/od/rates_of_exchange''"
definition DESIRED_PAGE_NUMBER :: int where "DESIRED_PAGE_NUMBER = 1"
definition DESIRED_PAGE_SIZE :: int where "DESIRED_PAGE_SIZE = 200"

definition fetch_treasury_data :: "'a world_scheme \<Rightarrow> exn + response" where
  "fetch_treasury_data w =
     (let url = BASE_URL @ ENDPOINT;
          params = [(''sort'', JStr ''-record_date''), (''format'', JStr ''json''),
                    (''page[number]'', JInt DESIRED_PAGE_NUMBER),
                    (''page[size]'', JInt DESIRED_PAGE_SIZE)]
      in case http_get w url params of
           Inr response \<Rightarrow> Inr response
         | Inl (Requests e) \<Rightarrow>
             if issubclass e Timeout then Inl DalException
             else if issubclass e ConnectionError then Inl DalException
             else if issubclass e RequestException then Inl DalException
             else Inl (Requests e)
         | Inl e \<Rightarrow> Inl e)"

section \<open>The business layer\<close>

subsection \<open>The last day of the previous quarter\<close>

definition APRIL :: nat where "APRIL = 4"
definition ONE_YEAR_IN_DAYS :: nat where "ONE_YEAR_IN_DAYS = 365"
definition JULY :: nat where "JULY = 7"
definition OCTOBER :: nat where "OCTOBER = 10"
definition DECEMBER :: nat where "DECEMBER = 12"

text \<open>
  \<^verbatim>\<open>find_last_quarter_date()\<close> takes no argument: \<open>today\<close> is the clock's reading. The
  calls of the logger have no effect on the result and are left out.
\<close>

definition find_last_quarter_date :: "'a clock_scheme \<Rightarrow> exn + date" where
  "find_last_quarter_date w =
     (let today = now w in
      if month today < APRIL then
        (case sub_days today ONE_YEAR_IN_DAYS of
           Inl e \<Rightarrow> Inl e
         | Inr today' \<Rightarrow> strptime_ymd (str_nat (year today') @ ''-12-31''))
      else if month today < JULY then strptime_ymd (str_nat (year today) @ ''-03-31'')
      else if month today < OCTOBER then strptime_ymd (str_nat (year today) @ ''-06-30'')
      else if month today \<le> DECEMBER then strptime_ymd (str_nat (year today) @ ''-09-30'')
      else Inl BusinessLogicException)"

subsection \<open>Parsing the response\<close>

text \<open>\<^verbatim>\<open>response.raise_for_status()\<close> raises for the status codes 400 to 599.\<close>

definition raise_for_status :: "response \<Rightarrow> exn + unit" where
  "raise_for_status response =
     (if 400 \<le> status_code response \<and> status_code response < 600
      then Inl (Requests HTTPError) else Inr ())"

text \<open>\<^verbatim>\<open>response.json()\<close>: the decoded body, when the body is a JSON document.\<close>

definition json_of :: "response \<Rightarrow> exn + json" where
  "json_of response =
     (case json_body response of None \<Rightarrow> Inl (Requests JSONDecodeError) | Some v \<Rightarrow> Inr v)"

text \<open>
  \<^verbatim>\<open>currency_dict\<close>: a \<^verbatim>\<open>dict\<close> keeps its keys in the order of their insertion.
\<close>

type_synonym currency_dict = "(json \<times> currency list) list"

definition contains_key :: "currency_dict \<Rightarrow> json \<Rightarrow> exn + bool" where
  "contains_key d k = (if hashable k then Inr (list_ex (\<lambda>kv. key_eq (fst kv) k) d) else Inl TypeError)"

definition append_to :: "currency_dict \<Rightarrow> json \<Rightarrow> currency \<Rightarrow> currency_dict" where
  "append_to d k c = map (\<lambda>kv. if key_eq (fst kv) k then (fst kv, snd kv @ [c]) else kv) d"

text \<open>One turn of the loop over \<^verbatim>\<open>response_json['data']\<close>.\<close>

definition parse_result :: "date \<Rightarrow> currency_dict \<Rightarrow> json \<Rightarrow> exn + currency_dict" where
  "parse_result last_quarter_date currency_dict result =
     and_then (getitem result ''record_date'') (\<lambda>v.
     and_then (strptime v) (\<lambda>record_date.
     and_then (getitem result ''country'') (\<lambda>country_nm.
     and_then (getitem result ''currency'') (\<lambda>currency_nm.
     and_then (getitem result ''exchange_rate'') (\<lambda>exchange_rate.
       if record_date = last_quarter_date then
         and_then (contains_key currency_dict country_nm) (\<lambda>present.
           if present then
             (let new_currency = Currency country_nm currency_nm exchange_rate
              in Inr (append_to currency_dict country_nm new_currency))
           else
             (let new_country = Currency country_nm currency_nm exchange_rate
              in Inr (currency_dict @ [(country_nm, [new_country])])))
       else Inr currency_dict)))))"

fun parse_results :: "date \<Rightarrow> currency_dict \<Rightarrow> json list \<Rightarrow> exn + currency_dict" where
  "parse_results last_quarter_date currency_dict [] = Inr currency_dict"
| "parse_results last_quarter_date currency_dict (result # rest) =
     (case parse_result last_quarter_date currency_dict result of
        Inl e \<Rightarrow> Inl e
      | Inr currency_dict' \<Rightarrow> parse_results last_quarter_date currency_dict' rest)"

text \<open>
  The body of \<^verbatim>\<open>parse_treasury_response\<close>, before the decorator. The counter kept for the
  log message and the calls of the logger do not change the result and are left out.
\<close>

definition parse_treasury_response_body :: "'a clock_scheme \<Rightarrow> response \<Rightarrow> exn + currency_dict" where
  "parse_treasury_response_body w response =
     and_then (raise_for_status response) (\<lambda>_.
     and_then (json_of response) (\<lambda>response_json.
     and_then (find_last_quarter_date w) (\<lambda>last_quarter_date.
     and_then (getitem response_json ''data'') (\<lambda>data.
     and_then (iterate data) (\<lambda>results.
       parse_results last_quarter_date [] results)))))"

text \<open>
  The decorator \<^verbatim>\<open>handle_request_errors\<close>: its \<^verbatim>\<open>except\<close> clauses in their order; any other
  exception passes through.
\<close>

definition handle_request_errors ::
    "('w \<Rightarrow> 'r \<Rightarrow> exn + 'a) \<Rightarrow> 'w \<Rightarrow> 'r \<Rightarrow> exn + 'a" where
  "handle_request_errors func w r =
     (case func w r of
        Inr v \<Rightarrow> Inr v
      | Inl (Requests e) \<Rightarrow>
          if issubclass e HTTPError then Inl BusinessLogicException
          else if issubclass e JSONDecodeError then Inl BusinessLogicException
          else Inl (Requests e)
      | Inl KeyError \<Rightarrow> Inl BusinessLogicException
      | Inl IndexError \<Rightarrow> Inl BusinessLogicException
      | Inl e \<Rightarrow> Inl e)"

definition parse_treasury_response :: "'a clock_scheme \<Rightarrow> response \<Rightarrow> exn + currency_dict" where
  "parse_treasury_response = handle_request_errors parse_treasury_response_body"

definition get_currency_data :: "'a world_scheme \<Rightarrow> exn + currency_dict" where
  "get_currency_data w =
     (case and_then (fetch_treasury_data w) (parse_treasury_response w) of
        Inr currency_dict \<Rightarrow> Inr currency_dict
      | Inl DalException \<Rightarrow> Inl BusinessLogicException
      | Inl BusinessLogicException \<Rightarrow> Inl BusinessLogicException
      | Inl e \<Rightarrow> Inl e)"

section \<open>Notions used in the statements\<close>

subsection \<open>Rows of the payload\<close>

text \<open>
  A row as the interface describes it is an object with a record date that
  \<^verbatim>\<open>strptime\<close> accepts, a country, a currency and an exchange rate. \<open>item v k\<close> is the
  value under the key \<open>k\<close> where there is one.
\<close>

definition item :: "json \<Rightarrow> string \<Rightarrow> json" where
  "item v k = (case getitem v k of Inr x \<Rightarrow> x | Inl e \<Rightarrow> JNull)"

definition has_item :: "json \<Rightarrow> string \<Rightarrow> bool" where
  "has_item v k = (case getitem v k of Inr x \<Rightarrow> True | Inl e \<Rightarrow> False)"

definition row_date :: "json \<Rightarrow> date option" where
  "row_date result =
     (case getitem result ''record_date'' of
        Inr v \<Rightarrow> (case strptime v of Inr d \<Rightarrow> Some d | Inl e \<Rightarrow> None)
      | Inl e \<Rightarrow> None)"

definition complete_row :: "json \<Rightarrow> bool" where
  "complete_row result \<longleftrightarrow>
     row_date result \<noteq> None \<and> has_item result ''country'' \<and> has_item result ''currency''
       \<and> has_item result ''exchange_rate''"

definition is_string :: "json \<Rightarrow> bool" where
  "is_string v = (case v of JStr s \<Rightarrow> True | _ \<Rightarrow> False)"

text \<open>A complete row whose country is a string.\<close>

definition named_row :: "json \<Rightarrow> bool" where
  "named_row result \<longleftrightarrow> complete_row result \<and> is_string (item result ''country'')"

text \<open>The \<^verbatim>\<open>Currency\<close> the parser builds from a row.\<close>

definition row_currency :: "json \<Rightarrow> currency" where
  "row_currency result =
     Currency (item result ''country'') (item result ''currency'') (item result ''exchange_rate'')"

text \<open>
  A row that is an object and lacks an expected key at the place where the parser asks for
  it: the record date, or one of the other three once the record date has been parsed.
\<close>

definition lacks_field :: "json \<Rightarrow> bool" where
  "lacks_field result =
     (case result of
        JObj kvs \<Rightarrow>
          map_of kvs ''record_date'' = None \<or>
          (row_date result \<noteq> None \<and>
             \<not> (has_item result ''country'' \<and> has_item result ''currency''
                  \<and> has_item result ''exchange_rate''))
      | _ \<Rightarrow> False)"

subsection \<open>The mapping\<close>

definition nonempty_values :: "currency_dict \<Rightarrow> bool" where
  "nonempty_values d \<longleftrightarrow> (\<forall>kv \<in> set d. snd kv \<noteq> [])"

definition string_keys :: "currency_dict \<Rightarrow> bool" where
  "string_keys d \<longleftrightarrow> (\<forall>kv \<in> set d. is_string (fst kv))"

text \<open>What a key maps to once more entries have been appended for it.\<close>

definition merge :: "'a list option \<Rightarrow> 'a list \<Rightarrow> 'a list option" where
  "merge old new =
     (case old of None \<Rightarrow> (if new = [] then None else Some new) | Some v \<Rightarrow> Some (v @ new))"

subsection \<open>Amounts and their text\<close>

text \<open>A finite float, its significand not negative.\<close>

definition finite_float :: "pyfloat \<Rightarrow> bool" where
  "finite_float x = (case x of Finite s m e \<Rightarrow> 0 \<le> m | _ \<Rightarrow> False)"

text \<open>The value of a finite float in hundredths, rounded to the nearest, ties to even.\<close>

definition cents :: "pyfloat \<Rightarrow> int" where
  "cents x = (case x of Finite s m e \<Rightarrow> div_half_even (shl (100 * m) e) (shl 1 (- e)) | _ \<Rightarrow> 0)"

text \<open>
  Digits in groups of three between commas, read from the right; the leftmost group has one
  to three digits.
\<close>

fun grouped_rev :: "string \<Rightarrow> bool" where
  "grouped_rev (a # b # c # d # r) =
     (is_digit a \<and> is_digit b \<and> is_digit c \<and> d = CHR '','' \<and> grouped_rev r)"
| "grouped_rev [] = False"
| "grouped_rev s = list_all is_digit s"

text \<open>
  The text of an amount: an optional minus sign, grouped digits, a point and exactly two
  digits.
\<close>

definition unsigned :: "string \<Rightarrow> string" where
  "unsigned s = (case s of c # r \<Rightarrow> if c = CHR ''-'' then r else s | [] \<Rightarrow> [])"

definition money_text :: "string \<Rightarrow> bool" where
  "money_text s =
     (case rev (unsigned s) of
        h # t # p # ip \<Rightarrow> is_digit h \<and> is_digit t \<and> p = CHR ''.'' \<and> grouped_rev ip
      | _ \<Rightarrow> False)"

section \<open>Example data\<close>

text \<open>
  A row of the rates-of-exchange feed, the rate a number written as a string; a clock in the
  fourth quarter of 2023, when the last completed quarter ended on 30 September; the payload
  of two rows for Germany at that date and one earlier row for France.
\<close>

definition api_row :: "string \<Rightarrow> string \<Rightarrow> string \<Rightarrow> string \<Rightarrow> json" where
  "api_row record_date country currency_nm exchange_rate =
     JObj [(''record_date'', JStr record_date), (''country'', JStr country),
           (''currency'', JStr currency_nm), (''exchange_rate'', JStr exchange_rate)]"

definition example_clock :: clock where
  "example_clock = \<lparr>now = \<lparr>year = 2023, month = 11, day = 4\<rparr>\<rparr>"

definition example_rows :: "json list" where
  "example_rows =
     [api_row ''2023-09-30'' ''Germany'' ''Euro'' ''0.94'',
      api_row ''2023-09-30'' ''Germany'' ''Other'' ''1.1'',
      api_row ''2023-06-30'' ''France'' ''Euro'' ''0.95'']"

text \<open>A response with status 200 whose body decodes to an object with the rows under \<^verbatim>\<open>data\<close>.\<close>

definition ok_response :: "json list \<Rightarrow> response" where
  "ok_response results = \<lparr>status_code = 200, json_body = Some (JObj [(''data'', JArr results)])\<rparr>"

text \<open>A row without currency and exchange rate.\<close>

definition short_row :: json where
  "short_row = JObj [(''record_date'', JStr ''2023-09-30''), (''country'', JStr ''Germany'')]"

section \<open>Properties of the calendar\<close>

lemma days_before_month_Suc:
  "1 \<le> m \<Longrightarrow> days_before_month y (Suc m) = days_before_month y m + days_in_month y m"
  by (simp add: days_before_month_def)

lemma days_in_month_pos: "0 < days_in_month y m"
  by (simp add: days_in_month_def)

lemma prev_day_same_year:
  assumes "valid_date d" "1 < day_of_year d"
  shows "\<exists>d'. prev_day d = Inr d' \<and> valid_date d' \<and> year d' = year d
            \<and> day_of_year d' = day_of_year d - 1"
proof (cases "1 < day d")
  case True
  with assms(1) show ?thesis
    by (auto simp add: prev_day_def valid_date_def day_of_year_def)
next
  case False
  with assms(1) have d1: "day d = 1" by (simp add: valid_date_def)
  have m1: "1 < month d"
  proof (rule ccontr)
    assume "\<not> 1 < month d"
    with assms(1) have "month d = 1" by (simp add: valid_date_def)
    with d1 assms(2) show False by (simp add: day_of_year_def days_before_month_def)
  qed
  then obtain k where k: "month d = Suc k" "1 \<le> k" by (cases "month d") auto
  with d1 assms(1) show ?thesis
    by (simp add: prev_day_def valid_date_def day_of_year_def days_before_month_Suc
        days_in_month_pos Suc_leI)
qed

lemma sub_days_same_year:
  "valid_date d \<Longrightarrow> n < day_of_year d \<Longrightarrow>
     \<exists>d'. sub_days d n = Inr d' \<and> valid_date d' \<and> year d' = year d
            \<and> day_of_year d' = day_of_year d - n"
proof (induction n arbitrary: d)
  case 0
  then show ?case by simp
next
  case (Suc n)
  from Suc.prems have "1 < day_of_year d" by simp
  with Suc.prems(1) obtain d1 where d1: "prev_day d = Inr d1" "valid_date d1"
      "year d1 = year d" "day_of_year d1 = day_of_year d - 1"
    using prev_day_same_year by blast
  with Suc.prems have "n < day_of_year d1" by simp
  with Suc.IH [OF d1(2)] d1 show ?case by auto
qed

lemma sub_days_add:
  "sub_days d (m + n) = (case sub_days d m of Inl e \<Rightarrow> Inl e | Inr d' \<Rightarrow> sub_days d' n)"
  by (induction m arbitrary: d) (auto split: sum.splits)

lemma first_day:
  assumes "valid_date d" "day_of_year d = 1"
  shows "month d = 1 \<and> day d = 1"
proof -
  have "month d = 1"
  proof (rule ccontr)
    assume "month d \<noteq> 1"
    with assms(1) obtain k where k: "month d = Suc k" "1 \<le> k"
      by (cases "month d") (auto simp: valid_date_def)
    with assms show False
      using days_in_month_pos [of "year d" k]
      by (simp add: day_of_year_def days_before_month_Suc valid_date_def)
  qed
  with assms show ?thesis by (simp add: day_of_year_def days_before_month_def)
qed

lemma day_of_year_pos: "valid_date d \<Longrightarrow> 1 \<le> day_of_year d"
  by (simp add: day_of_year_def valid_date_def)

lemma sub_days_to_new_year:
  assumes "valid_date d"
  shows "sub_days d (day_of_year d) =
           (if 1 < year d then Inr \<lparr>year = year d - 1, month = 12, day = 31\<rparr>
            else Inl OverflowError)"
proof -
  from assms have pos: "1 \<le> day_of_year d" by (rule day_of_year_pos)
  then have "day_of_year d - 1 < day_of_year d" by simp
  from sub_days_same_year [OF assms this] obtain d1 where d1:
    "sub_days d (day_of_year d - 1) = Inr d1" "valid_date d1" "year d1 = year d"
    "day_of_year d1 = day_of_year d - (day_of_year d - 1)" by blast
  with pos have "day_of_year d1 = 1" by simp
  with d1(2) have "month d1 = 1 \<and> day d1 = 1" by (rule first_day)
  with d1(3) have p: "prev_day d1 =
      (if 1 < year d then Inr \<lparr>year = year d - 1, month = 12, day = 31\<rparr> else Inl OverflowError)"
    by (simp add: prev_day_def)
  from pos have "day_of_year d = (day_of_year d - 1) + 1" by simp
  then have "sub_days d (day_of_year d) = sub_days d ((day_of_year d - 1) + 1)" by simp
  also have "\<dots> = (case prev_day d1 of Inl e \<Rightarrow> Inl e | Inr d' \<Rightarrow> Inr d')"
    unfolding sub_days_add d1(1) by (simp split: sum.splits)
  finally show ?thesis using p by simp
qed

lemma upt_12: "[Suc 0..<12] = [1,2,3,4,5,6,7,8,9,10,11::nat]"
  by (simp add: upt_rec)

lemma day_of_year_dec31: "365 \<le> day_of_year \<lparr>year = y, month = 12, day = 31\<rparr>"
  by (simp add: day_of_year_def days_before_month_def upt_12 days_in_month_def)

lemma valid_dec31: "1 \<le> y \<Longrightarrow> y \<le> 9999 \<Longrightarrow> valid_date \<lparr>year = y, month = 12, day = 31\<rparr>"
  by (simp add: valid_date_def days_in_month_def)

lemma day_of_year_first_quarter:
  assumes "valid_date d" "month d < 4"
  shows "day_of_year d \<le> 91"
proof -
  from assms have "month d = 1 \<or> month d = 2 \<or> month d = 3"
    by (auto simp: valid_date_def)
  with assms(1) show ?thesis
    by (auto simp: day_of_year_def days_before_month_def valid_date_def days_in_month_def
        upt_rec)
qed

lemma sub_days_365_first_quarter:
  assumes "valid_date d" "month d < 4"
  shows "if 1 < year d
         then \<exists>d'. sub_days d 365 = Inr d' \<and> year d' = year d - 1
         else sub_days d 365 = Inl OverflowError"
proof -
  let ?k = "day_of_year d"
  from assms have k: "?k \<le> 91" by (rule day_of_year_first_quarter)
  then have "365 = ?k + (365 - ?k)" by simp
  then have split: "sub_days d 365 =
      (case sub_days d ?k of Inl e \<Rightarrow> Inl e | Inr d' \<Rightarrow> sub_days d' (365 - ?k))"
    using sub_days_add [of d ?k "365 - ?k"] by simp
  show ?thesis
  proof (cases "1 < year d")
    case True
    let ?e = "\<lparr>year = year d - 1, month = 12, day = 31\<rparr>"
    from True assms(1) have v: "valid_date ?e"
      by (intro valid_dec31) (auto simp: valid_date_def)
    from assms(1) have pos: "1 \<le> ?k" by (rule day_of_year_pos)
    have "365 - ?k < day_of_year ?e"
      using day_of_year_dec31 [of "year d - 1"] pos by simp
    from sub_days_same_year [OF v this] obtain d' where
      "sub_days ?e (365 - ?k) = Inr d'" "year d' = year d - 1" by auto
    with True split sub_days_to_new_year [OF assms(1)] show ?thesis by simp
  next
    case False
    with split sub_days_to_new_year [OF assms(1)] show ?thesis by simp
  qed
qed


lemma digit_val_digit_char: "k < 10 \<Longrightarrow> digit_val (digit_char k) = k"
  by (simp add: digit_val_def digit_char_def)

lemma is_digit_digit_char: "k < 10 \<Longrightarrow> is_digit (digit_char k)"
  by (simp add: is_digit_def digit_char_def)

lemma str_nat_four:
  assumes "1000 \<le> y" "y \<le> 9999"
  shows "str_nat y = [digit_char (y div 1000), digit_char (y div 100 mod 10),
                      digit_char (y div 10 mod 10), digit_char (y mod 10)]"
proof -
  have b: "y div 1000 < 10" "\<not> y div 100 < 10" "\<not> y div 10 < 10" "\<not> y < 10"
    using assms by linarith+
  have e: "y div 10 div 10 = y div 100" "y div 100 div 10 = y div 1000"
    by (simp_all add: div_mult2_eq [symmetric])
  have s3: "str_nat (y div 1000) = [digit_char (y div 1000)]"
    using b(1) by (subst str_nat.simps) simp
  have s2: "str_nat (y div 100) = str_nat (y div 1000) @ [digit_char (y div 100 mod 10)]"
    using b(2) e(2) by (subst str_nat.simps) simp
  have s1: "str_nat (y div 10) = str_nat (y div 100) @ [digit_char (y div 10 mod 10)]"
    using b(3) e(1) by (subst str_nat.simps) simp
  have s0: "str_nat y = str_nat (y div 10) @ [digit_char (y mod 10)]"
    using b(4) by (subst str_nat.simps) simp
  show ?thesis by (simp add: s0 s1 s2 s3)
qed

lemma decimal_four:
  "1000 * (y div 1000) + 100 * (y div 100 mod 10) + 10 * (y div 10 mod 10) + y mod 10 = (y::nat)"
proof -
  have "y = 10 * (y div 10) + y mod 10" by simp
  also have "y div 10 = 10 * (y div 10 div 10) + y div 10 mod 10" by simp
  also have "y div 10 div 10 = 10 * (y div 10 div 10 div 10) + y div 10 div 10 mod 10" by simp
  finally show ?thesis by (simp add: div_mult2_eq [symmetric])
qed

lemma strptime_ymd_year:
  assumes "1000 \<le> y" "y \<le> 9999"
    and md: "match_month md = Some (m, CHR ''-'' # dd)" "match_day dd = Some (dy, [])"
    and ok: "1 \<le> dy" "dy \<le> days_in_month y m"
  shows "strptime_ymd (str_nat y @ CHR ''-'' # md) = Inr \<lparr>year = y, month = m, day = dy\<rparr>"
proof -
  let ?a = "y div 1000" and ?b = "y div 100 mod 10" and ?c = "y div 10 mod 10" and ?d = "y mod 10"
  from assms(2) have lt: "?a < 10" "?b < 10" "?c < 10" "?d < 10" by simp_all
  have "strptime_ymd (str_nat y @ CHR ''-'' # md) =
        strptime_ymd (digit_char ?a # digit_char ?b # digit_char ?c # digit_char ?d # CHR ''-'' # md)"
    by (simp add: str_nat_four [OF assms(1,2)])
  also have "\<dots> = make_date (1000 * ?a + 100 * ?b + 10 * ?c + ?d) m dy"
    using md lt by (simp add: is_digit_digit_char digit_val_digit_char)
  also have "\<dots> = make_date y m dy" by (simp only: decimal_four)
  also have "\<dots> = Inr \<lparr>year = y, month = m, day = dy\<rparr>"
    using ok assms(1) by (simp add: make_date_def)
  finally show ?thesis .
qed

lemma match_quarter_ends: "match_month ''12-31'' = Some (12, ''-31'')" "match_day ''31'' = Some (31, [])"
  "match_month ''03-31'' = Some (3, ''-31'')" 
  "match_month ''06-30'' = Some (6, ''-30'')" "match_day ''30'' = Some (30, [])"
  "match_month ''09-30'' = Some (9, ''-30'')" 
  by (simp_all add: in_range_def is_digit_def digit_val_def)


lemma strptime_quarter_ends:
  assumes "1000 \<le> y" "y \<le> 9999"
  shows "strptime_ymd (str_nat y @ ''-12-31'') = Inr \<lparr>year = y, month = 12, day = 31\<rparr>"
    and "strptime_ymd (str_nat y @ ''-03-31'') = Inr \<lparr>year = y, month = 3, day = 31\<rparr>"
    and "strptime_ymd (str_nat y @ ''-06-30'') = Inr \<lparr>year = y, month = 6, day = 30\<rparr>"
    and "strptime_ymd (str_nat y @ ''-09-30'') = Inr \<lparr>year = y, month = 9, day = 30\<rparr>"
  using strptime_ymd_year [OF assms match_quarter_ends(1) match_quarter_ends(2)] strptime_ymd_year [OF assms match_quarter_ends(3) match_quarter_ends(2)]
    strptime_ymd_year [OF assms match_quarter_ends(4) match_quarter_ends(5)] strptime_ymd_year [OF assms match_quarter_ends(6) match_quarter_ends(5)]
  by (simp_all add: days_in_month_def)

lemma strptime_ymd_error: "strptime_ymd s = Inl e \<Longrightarrow> e = ValueError"
  by (cases s rule: strptime_ymd.cases)
     (auto simp: make_date_def split: if_splits option.splits list.splits)

lemma sub_days_error: "sub_days d n = Inl e \<Longrightarrow> e = OverflowError"
  by (induction n arbitrary: d) (auto simp: prev_day_def split: if_splits sum.splits)

lemma last_quarter_first_months:
  assumes "valid_date (now w)" and "1000 < year (now w)" and "month (now w) < 4"
  shows "find_last_quarter_date w = Inr \<lparr>year = year (now w) - 1, month = 12, day = 31\<rparr>"
proof -
  let ?d = "now w"
  from assms have y: "1000 \<le> year ?d - 1" "year ?d - 1 \<le> 9999"
    by (auto simp: valid_date_def)
  from assms sub_days_365_first_quarter [of ?d] obtain d' where
    "sub_days ?d 365 = Inr d'" "year d' = year ?d - 1" by (auto split: if_splits)
  with assms(3) y show ?thesis
    by (simp add: find_last_quarter_date_def APRIL_def ONE_YEAR_IN_DAYS_def
        strptime_quarter_ends)
qed

lemma last_quarter_later_months:
  assumes "valid_date (now w)" and "1000 \<le> year (now w)" and "4 \<le> month (now w)"
  shows "find_last_quarter_date w = Inr
     (if month (now w) \<le> 6 then \<lparr>year = year (now w), month = 3, day = 31\<rparr>
      else if month (now w) \<le> 9 then \<lparr>year = year (now w), month = 6, day = 30\<rparr>
      else \<lparr>year = year (now w), month = 9, day = 30\<rparr>)"
proof -
  from assms have "year (now w) \<le> 9999" "month (now w) \<le> 12"
    by (auto simp: valid_date_def)
  with assms(2,3) show ?thesis
    by (simp add: find_last_quarter_date_def APRIL_def JULY_def OCTOBER_def DECEMBER_def
        strptime_quarter_ends)
qed

lemma last_quarter_no_invariant_error:
  assumes "month (now w) \<le> 12"
  shows "find_last_quarter_date w \<noteq> Inl BusinessLogicException"
proof
  assume a: "find_last_quarter_date w = Inl BusinessLogicException"
  then show False using assms
    by (auto simp: find_last_quarter_date_def Let_def DECEMBER_def
        split: if_splits sum.splits dest: strptime_ymd_error sub_days_error)
qed

text \<open>
  Outside the years a wall clock shows, the detour through text matters: a year of fewer than
  four digits is not accepted back by \<^verbatim>\<open>%Y\<close>, and no date lies a year before year 1.
\<close>

lemma last_quarter_three_digit_year:
  "find_last_quarter_date \<lparr>now = \<lparr>year = 999, month = 5, day = 20\<rparr>\<rparr> = Inl ValueError"
  by code_simp

lemma last_quarter_first_year:
  "find_last_quarter_date \<lparr>now = \<lparr>year = 1, month = 2, day = 3\<rparr>\<rparr> = Inl OverflowError"
  using sub_days_365_first_quarter [of "\<lparr>year = 1, month = 2, day = 3\<rparr>"]
  by (simp add: find_last_quarter_date_def APRIL_def ONE_YEAR_IN_DAYS_def valid_date_def
      days_in_month_def)

section \<open>The quarter-end resolver\<close>

text \<open>
  Claim C1. Whatever date the clock shows, \<^verbatim>\<open>find_last_quarter_date\<close> returns the last
  day of the quarter completed before it: 31 December of the previous year in January to
  March, 31 March in April to June, 30 June in July to September and 30 September in October
  to December. The year taken from the date 365 days earlier is the previous year in leap
  years as in others. The date is one a wall clock shows: the function writes the year as
  text and reads it back with \<^verbatim>\<open>%Y\<close>, which wants four digits, so the year and the one
  before it are 1000 at least.
\<close>

theorem find_last_quarter_date_table:
  assumes "valid_date (now w)" and "1000 < year (now w)"
  shows "find_last_quarter_date w = Inr
     (if month (now w) \<le> 3 then \<lparr>year = year (now w) - 1, month = 12, day = 31\<rparr>
      else if month (now w) \<le> 6 then \<lparr>year = year (now w), month = 3, day = 31\<rparr>
      else if month (now w) \<le> 9 then \<lparr>year = year (now w), month = 6, day = 30\<rparr>
      else \<lparr>year = year (now w), month = 9, day = 30\<rparr>)"
proof (cases "month (now w) < 4")
  case True
  with assms show ?thesis
    by (simp add: last_quarter_first_months)
next
  case False
  then have "4 \<le> month (now w)" by simp
  with assms show ?thesis
    by (simp add: last_quarter_later_months)
qed

theorem find_last_quarter_date_table_witness:
  "valid_date \<lparr>year = 2021, month = 1, day = 1\<rparr> \<and> (1000::nat) < 2021 \<and>
   find_last_quarter_date \<lparr>now = \<lparr>year = 2021, month = 1, day = 1\<rparr>\<rparr>
     = Inr \<lparr>year = 2020, month = 12, day = 31\<rparr>"
  using find_last_quarter_date_table [of "\<lparr>now = \<lparr>year = 2021, month = 1, day = 1\<rparr>\<rparr>"]
  by (simp add: valid_date_def days_in_month_def)

text \<open>
  Claim C8. With a month from 1 to 12 the last branch of \<^verbatim>\<open>find_last_quarter_date\<close> is
  never taken, so \<^verbatim>\<open>BusinessLogicException\<close> is not raised there; and on every date a
  wall clock shows the function returns the last day of a quarter.
\<close>

theorem find_last_quarter_date_total:
  assumes "month (now w) \<le> 12"
  shows "find_last_quarter_date w \<noteq> Inl BusinessLogicException \<and>
         (valid_date (now w) \<and> 1000 < year (now w) \<longrightarrow>
            (\<exists>q. find_last_quarter_date w = Inr q \<and> is_quarter_end q))"
proof -
  have "\<exists>q. find_last_quarter_date w = Inr q \<and> is_quarter_end q"
    if v: "valid_date (now w)" "1000 < year (now w)"
  proof (cases "month (now w) < 4")
    case True
    with v show ?thesis
      by (simp add: last_quarter_first_months is_quarter_end_def)
  next
    case False
    then have "4 \<le> month (now w)" by simp
    with v show ?thesis
      by (simp add: last_quarter_later_months is_quarter_end_def)
  qed
  with last_quarter_no_invariant_error [OF assms] show ?thesis by blast
qed

theorem find_last_quarter_date_total_witness:
  "month \<lparr>year = 2023, month = 11, day = 4\<rparr> \<le> 12 \<and>
   valid_date \<lparr>year = 2023, month = 11, day = 4\<rparr> \<and> (1000::nat) < 2023 \<and>
   find_last_quarter_date \<lparr>now = \<lparr>year = 2023, month = 11, day = 4\<rparr>\<rparr>
     \<noteq> Inl BusinessLogicException \<and>
   (\<exists>q. find_last_quarter_date \<lparr>now = \<lparr>year = 2023, month = 11, day = 4\<rparr>\<rparr> = Inr q
        \<and> is_quarter_end q)"
  using find_last_quarter_date_total [of "\<lparr>now = \<lparr>year = 2023, month = 11, day = 4\<rparr>\<rparr>"]
  by (simp add: valid_date_def days_in_month_def)

text \<open>
  Claim C9, as stated, fails: \<^verbatim>\<open>find_last_quarter_date\<close> has no parameter and reads
  \<^verbatim>\<open>datetime.now()\<close> itself, so the same call returns different dates under different
  clocks.
\<close>

theorem find_last_quarter_date_reads_clock:
  "find_last_quarter_date \<lparr>now = \<lparr>year = 2023, month = 11, day = 4\<rparr>\<rparr>
     = Inr \<lparr>year = 2023, month = 9, day = 30\<rparr> \<and>
   find_last_quarter_date \<lparr>now = \<lparr>year = 2024, month = 2, day = 1\<rparr>\<rparr>
     = Inr \<lparr>year = 2023, month = 12, day = 31\<rparr> \<and>
   find_last_quarter_date \<lparr>now = \<lparr>year = 2023, month = 11, day = 4\<rparr>\<rparr>
     \<noteq> find_last_quarter_date \<lparr>now = \<lparr>year = 2024, month = 2, day = 1\<rparr>\<rparr>"
  using last_quarter_later_months [of "\<lparr>now = \<lparr>year = 2023, month = 11, day = 4\<rparr>\<rparr>"]
    last_quarter_first_months [of "\<lparr>now = \<lparr>year = 2024, month = 2, day = 1\<rparr>\<rparr>"]
  by (simp add: valid_date_def days_in_month_def is_leap_def)

text \<open>
  Claim C9, amended. The clock is the only thing \<^verbatim>\<open>find_last_quarter_date\<close> reads, and
  of its reading only the year and the month count: two calls under clocks that agree on
  both return the same result, whatever else differs in their environments.
\<close>

theorem find_last_quarter_date_clock_only:
  fixes w :: "'a clock_scheme" and w' :: "'b clock_scheme"
  assumes "valid_date (now w)" and "valid_date (now w')"
    and "year (now w) = year (now w')" and "month (now w) = month (now w')"
  shows "find_last_quarter_date w = find_last_quarter_date w'"
proof (cases "month (now w) < 4")
  case True
  with assms have t: "month (now w') < 4" by simp
  from sub_days_365_first_quarter [OF assms(1) True]
       sub_days_365_first_quarter [OF assms(2) t] assms(3) True t
  show ?thesis
    by (auto simp: find_last_quarter_date_def APRIL_def ONE_YEAR_IN_DAYS_def split: if_splits)
next
  case False
  with assms show ?thesis
    by (simp add: find_last_quarter_date_def APRIL_def Let_def)
qed

theorem find_last_quarter_date_clock_only_witness:
  "valid_date \<lparr>year = 2024, month = 2, day = 1\<rparr> \<and>
   valid_date \<lparr>year = 2024, month = 2, day = 29\<rparr> \<and>
   year \<lparr>year = 2024, month = 2, day = 1\<rparr> = year \<lparr>year = 2024, month = 2, day = 29\<rparr> \<and>
   month \<lparr>year = 2024, month = 2, day = 1\<rparr> = month \<lparr>year = 2024, month = 2, day = 29\<rparr> \<and>
   find_last_quarter_date \<lparr>now = \<lparr>year = 2024, month = 2, day = 1\<rparr>\<rparr>
     = find_last_quarter_date \<lparr>now = \<lparr>year = 2024, month = 2, day = 29\<rparr>\<rparr>"
  using find_last_quarter_date_clock_only
    [of "\<lparr>now = \<lparr>year = 2024, month = 2, day = 1\<rparr>\<rparr>"
        "\<lparr>now = \<lparr>year = 2024, month = 2, day = 29\<rparr>\<rparr>"]
  by (simp add: valid_date_def days_in_month_def is_leap_def)

section \<open>The fetch client\<close>

lemma requests_exception_caught:
  "issubclass e Timeout \<or> issubclass e ConnectionError \<or> issubclass e RequestException"
  by (cases e) (simp_all add: issubclass_def)

text \<open>
  Claim C5. Whatever exception of the HTTP library \<^verbatim>\<open>requests.get\<close> raises, a timeout, a
  connection failure or any other request failure, \<^verbatim>\<open>fetch_treasury_data\<close> raises
  \<^verbatim>\<open>DalException\<close> and nothing else.
\<close>

theorem fetch_treasury_data_uniform:
  assumes "http_get w (BASE_URL @ ENDPOINT)
             [(''sort'', JStr ''-record_date''), (''format'', JStr ''json''),
              (''page[number]'', JInt DESIRED_PAGE_NUMBER),
              (''page[size]'', JInt DESIRED_PAGE_SIZE)] = Inl (Requests e)"
  shows "fetch_treasury_data w = Inl DalException"
  using assms requests_exception_caught [of e]
  by (auto simp: fetch_treasury_data_def Let_def)

theorem fetch_treasury_data_uniform_witness:
  "http_get \<lparr>now = \<lparr>year = 2023, month = 11, day = 4\<rparr>, http_get = \<lambda>url params. Inl (Requests ReadTimeout)\<rparr>
     (BASE_URL @ ENDPOINT)
     [(''sort'', JStr ''-record_date''), (''format'', JStr ''json''),
      (''page[number]'', JInt DESIRED_PAGE_NUMBER),
      (''page[size]'', JInt DESIRED_PAGE_SIZE)] = Inl (Requests ReadTimeout) \<and>
   fetch_treasury_data
     \<lparr>now = \<lparr>year = 2023, month = 11, day = 4\<rparr>, http_get = \<lambda>url params. Inl (Requests ReadTimeout)\<rparr>
     = Inl DalException"
  using fetch_treasury_data_uniform
    [of "\<lparr>now = \<lparr>year = 2023, month = 11, day = 4\<rparr>, http_get = \<lambda>url params. Inl (Requests ReadTimeout)\<rparr>" ReadTimeout]
  by simp

section \<open>The parser\<close>

subsection \<open>Exceptions and the decorator\<close>

lemma and_then_Inr:
  "and_then r f = Inr y \<longleftrightarrow> (\<exists>v. r = Inr v \<and> f v = Inr y)"
  by (cases r) (simp_all add: and_then_def)

lemma and_then_Inl:
  "and_then r f = Inl e \<longleftrightarrow> r = Inl e \<or> (\<exists>v. r = Inr v \<and> f v = Inl e)"
  by (cases r) (simp_all add: and_then_def)

lemma and_then_simps [simp]:
  "and_then (Inr v) f = f v" "and_then (Inl e) f = Inl e"
  by (simp_all add: and_then_def)

lemma handle_request_errors_Inr:
  "handle_request_errors func w r = Inr v \<longleftrightarrow> func w r = Inr v"
  by (auto simp: handle_request_errors_def split: sum.splits exn.splits if_splits)

lemma handle_request_errors_KeyError:
  "func w r = Inl KeyError \<Longrightarrow> handle_request_errors func w r = Inl BusinessLogicException"
  by (simp add: handle_request_errors_def)

lemma getitem_error: "getitem v k = Inl e \<Longrightarrow> e = KeyError \<or> e = TypeError"
  by (cases v) (auto split: option.splits)

lemma strptime_error: "strptime v = Inl e \<Longrightarrow> e = ValueError \<or> e = TypeError"
  by (cases v) (auto dest: strptime_ymd_error)

lemma iterate_error: "iterate v = Inl e \<Longrightarrow> e = TypeError"
  by (cases v) auto

lemma contains_key_error: "contains_key d k = Inl e \<Longrightarrow> e = TypeError"
  by (auto simp: contains_key_def split: if_splits)

lemma parse_result_error:
  assumes "parse_result q d result = Inl e"
  shows "e = KeyError \<or> e = ValueError \<or> e = TypeError"
  using assms
  by (auto simp: parse_result_def and_then_Inl Let_def
      dest: getitem_error strptime_error contains_key_error split: if_splits)

lemma parse_results_error:
  "parse_results q d results = Inl e \<Longrightarrow> e = KeyError \<or> e = ValueError \<or> e = TypeError"
proof (induction results arbitrary: d)
  case Nil
  then show ?case by simp
next
  case (Cons result rest)
  then show ?case
    by (auto split: sum.splits dest: parse_result_error)
qed

lemma find_last_quarter_date_errors:
  assumes "find_last_quarter_date w = Inl e"
  shows "e = ValueError \<or> e = OverflowError \<or> e = BusinessLogicException"
  using assms
  by (auto simp: find_last_quarter_date_def Let_def
      split: if_splits sum.splits dest: strptime_ymd_error sub_days_error)

lemma parse_treasury_response_body_error:
  assumes "parse_treasury_response_body w response = Inl e"
  shows "e = Requests HTTPError \<or> e = Requests JSONDecodeError \<or> e = KeyError \<or>
         e = ValueError \<or> e = TypeError \<or> e = OverflowError \<or> e = BusinessLogicException"
  using assms
  by (auto simp: parse_treasury_response_body_def and_then_Inl raise_for_status_def json_of_def
      split: if_splits option.splits
      dest: find_last_quarter_date_errors getitem_error iterate_error parse_results_error)

lemma parse_treasury_response_error:
  assumes "parse_treasury_response w response = Inl e"
  shows "e = BusinessLogicException \<or> e = ValueError \<or> e = TypeError \<or> e = OverflowError"
proof -
  from assms obtain e' where e': "parse_treasury_response_body w response = Inl e'"
    by (cases "parse_treasury_response_body w response")
       (auto simp: parse_treasury_response_def handle_request_errors_def)
  from parse_treasury_response_body_error [OF e'] assms e' show ?thesis
    by (auto simp: parse_treasury_response_def handle_request_errors_def issubclass_def)
qed

subsection \<open>The loop over the rows\<close>

lemma parse_result_nonempty:
  assumes "parse_result q d result = Inr d'" "nonempty_values d"
  shows "nonempty_values d'"
  using assms
  by (auto simp: parse_result_def and_then_Inr nonempty_values_def append_to_def Let_def
      split: if_splits)

lemma parse_results_nonempty:
  "parse_results q d results = Inr d' \<Longrightarrow> nonempty_values d \<Longrightarrow> nonempty_values d'"
proof (induction results arbitrary: d)
  case Nil
  then show ?case by simp
next
  case (Cons result rest)
  then show ?case
    by (auto split: sum.splits dest: parse_result_nonempty)
qed

lemma key_eq_strings [simp]: "key_eq (JStr a) (JStr b) \<longleftrightarrow> a = b"
  by (simp add: key_eq_def)

lemma is_stringE: "is_string v \<Longrightarrow> (\<And>s. v = JStr s \<Longrightarrow> P) \<Longrightarrow> P"
  by (cases v) (simp_all add: is_string_def)

lemma complete_row_fields:
  assumes "complete_row result"
  obtains d where "row_date result = Some d"
    and "and_then (getitem result ''record_date'') strptime = Inr d"
    and "getitem result ''country'' = Inr (item result ''country'')"
    and "getitem result ''currency'' = Inr (item result ''currency'')"
    and "getitem result ''exchange_rate'' = Inr (item result ''exchange_rate'')"
proof -
  from assms obtain d where d: "row_date result = Some d"
    by (auto simp: complete_row_def)
  then have "and_then (getitem result ''record_date'') strptime = Inr d"
    by (auto simp: row_date_def split: sum.splits)
  moreover from assms have "getitem result ''country'' = Inr (item result ''country'')"
    "getitem result ''currency'' = Inr (item result ''currency'')"
    "getitem result ''exchange_rate'' = Inr (item result ''exchange_rate'')"
    by (auto simp: complete_row_def has_item_def item_def split: sum.splits)
  ultimately show ?thesis using d that by blast
qed

lemma parse_result_complete:
  assumes "complete_row result"
  shows "parse_result q d result =
     (if row_date result = Some q then
        and_then (contains_key d (item result ''country'')) (\<lambda>present.
          if present then Inr (append_to d (item result ''country'') (row_currency result))
          else Inr (d @ [(item result ''country'', [row_currency result])]))
      else Inr d)"
proof -
  from assms obtain dt where f: "row_date result = Some dt"
    "and_then (getitem result ''record_date'') strptime = Inr dt"
    "getitem result ''country'' = Inr (item result ''country'')"
    "getitem result ''currency'' = Inr (item result ''currency'')"
    "getitem result ''exchange_rate'' = Inr (item result ''exchange_rate'')"
    by (rule complete_row_fields)
  from f(2) obtain v where v: "getitem result ''record_date'' = Inr v" "strptime v = Inr dt"
    by (auto simp: and_then_Inr)
  show ?thesis
    unfolding parse_result_def Let_def row_currency_def
    by (simp add: v f)
qed

lemma parse_results_no_match:
  assumes "\<forall>r \<in> set results. complete_row r \<and> row_date r \<noteq> Some q"
  shows "parse_results q d results = Inr d"
  using assms
  by (induction results) (simp_all add: parse_result_complete)

lemma contains_key_string:
  assumes "string_keys d"
  shows "contains_key d (JStr c) = Inr (JStr c \<in> fst ` set d)"
proof -
  have "list_ex (\<lambda>kv. key_eq (fst kv) (JStr c)) d \<longleftrightarrow> JStr c \<in> fst ` set d"
    using assms
    by (induction d) (auto simp: string_keys_def elim!: is_stringE)
  then show ?thesis by (simp add: contains_key_def)
qed

lemma append_to_keys [simp]: "map fst (append_to d k c) = map fst d"
  by (induction d) (simp_all add: append_to_def)

lemma append_to_string_keys: "string_keys d \<Longrightarrow> string_keys (append_to d k c)"
  by (auto simp: string_keys_def append_to_def)

lemma map_of_append_to:
  assumes "string_keys d"
  shows "map_of (append_to d (JStr c) x) (JStr c') =
           (if c' = c then map_option (\<lambda>v. v @ [x]) (map_of d (JStr c)) else map_of d (JStr c'))"
  using assms
  by (induction d) (auto simp: append_to_def string_keys_def elim!: is_stringE)

lemma map_of_new_key:
  assumes "k \<notin> fst ` set d"
  shows "map_of (d @ [(k, v)]) k' = (if k' = k then Some v else map_of d k')"
proof -
  from assms have "map_of d k = None" by (simp add: map_of_eq_None_iff)
  then show ?thesis by (cases "map_of d k'") (auto simp: map_add_def)
qed

lemma merge_simps:
  "merge None [] = None" "new \<noteq> [] \<Longrightarrow> merge None new = Some new"
  "merge (Some v) new = Some (v @ new)"
  by (simp_all add: merge_def)

lemma parse_results_grouping:
  assumes "\<forall>r \<in> set results. named_row r" and "distinct (map fst d0)" and "string_keys d0"
  shows "\<exists>d. parse_results q d0 results = Inr d \<and> distinct (map fst d) \<and> string_keys d \<and>
           (\<forall>c. map_of d (JStr c) =
              merge (map_of d0 (JStr c))
                (map row_currency
                   (filter (\<lambda>r. row_date r = Some q \<and> item r ''country'' = JStr c) results)))"
  using assms
proof (induction results arbitrary: d0)
  case Nil
  then show ?case by (auto simp: merge_def split: option.splits)
next
  case (Cons r rest)
  from Cons.prems(1) have r: "complete_row r" "is_string (item r ''country'')"
    and rest: "\<forall>r \<in> set rest. named_row r"
    by (auto simp: named_row_def)
  from r(2) obtain c0 where c0: "item r ''country'' = JStr c0" by (rule is_stringE)
  let ?x = "row_currency r"
  let ?sel = "\<lambda>rs c. map row_currency
      (filter (\<lambda>r. row_date r = Some q \<and> item r ''country'' = JStr c) rs)"
  show ?case
  proof (cases "row_date r = Some q")
    case False
    then have step: "parse_result q d0 r = Inr d0"
      by (simp add: parse_result_complete [OF r(1)])
    from Cons.IH [OF rest Cons.prems(2,3)] obtain d where d:
      "parse_results q d0 rest = Inr d" "distinct (map fst d)" "string_keys d"
      "\<forall>c. map_of d (JStr c) = merge (map_of d0 (JStr c)) (?sel rest c)"
      by blast
    with step False show ?thesis by auto
  next
    case True
    show ?thesis
    proof (cases "JStr c0 \<in> fst ` set d0")
      case present: True
      let ?d1 = "append_to d0 (JStr c0) ?x"
      have step: "parse_result q d0 r = Inr ?d1"
        using True present
        by (simp add: parse_result_complete [OF r(1)] c0 contains_key_string [OF Cons.prems(3)])
      have d1: "distinct (map fst ?d1)" "string_keys ?d1"
        using Cons.prems(2,3) by (simp_all add: append_to_string_keys)
      from Cons.IH [OF rest d1] obtain d where d:
        "parse_results q ?d1 rest = Inr d" "distinct (map fst d)" "string_keys d"
        "\<forall>c. map_of d (JStr c) = merge (map_of ?d1 (JStr c)) (?sel rest c)"
        by blast
      from present obtain v where v: "map_of d0 (JStr c0) = Some v"
        by (cases "map_of d0 (JStr c0)") (auto simp: map_of_eq_None_iff)
      have "map_of d (JStr c) = merge (map_of d0 (JStr c)) (?sel (r # rest) c)" for c
        using d(4) True c0 v
        by (auto simp: map_of_append_to [OF Cons.prems(3)] merge_def split: option.splits)
      with step d(1,2,3) show ?thesis by auto
    next
      case absent: False
      let ?d1 = "d0 @ [(JStr c0, [?x])]"
      have step: "parse_result q d0 r = Inr ?d1"
        using True absent
        by (simp add: parse_result_complete [OF r(1)] c0 contains_key_string [OF Cons.prems(3)])
      have d1: "distinct (map fst ?d1)" "string_keys ?d1"
        using Cons.prems(2,3) absent by (auto simp: string_keys_def is_string_def)
      from Cons.IH [OF rest d1] obtain d where d:
        "parse_results q ?d1 rest = Inr d" "distinct (map fst d)" "string_keys d"
        "\<forall>c. map_of d (JStr c) = merge (map_of ?d1 (JStr c)) (?sel rest c)"
        by blast
      from absent have n: "map_of d0 (JStr c0) = None"
        by (simp add: map_of_eq_None_iff)
      have "map_of d (JStr c) = merge (map_of d0 (JStr c)) (?sel (r # rest) c)" for c
        using d(4) True c0 n
        by (auto simp: map_of_new_key [OF absent] merge_def split: option.splits)
      with step d(1,2,3) show ?thesis by auto
    qed
  qed
qed

lemma parse_treasury_response_body_rows:
  assumes "\<not> (400 \<le> status_code response \<and> status_code response < 600)"
    and "json_body response = Some payload"
    and "getitem payload ''data'' = Inr (JArr results)"
    and "find_last_quarter_date w = Inr q"
  shows "parse_treasury_response_body w response = parse_results q [] results"
proof -
  from assms(1) have "raise_for_status response = Inr ()"
    by (simp add: raise_for_status_def)
  moreover from assms(2) have "json_of response = Inr payload"
    by (simp add: json_of_def)
  ultimately show ?thesis
    using assms(3,4) by (simp add: parse_treasury_response_body_def)
qed

lemma parse_result_lacks_field:
  assumes "lacks_field result"
  shows "parse_result q d result = Inl KeyError"
proof -
  from assms obtain kvs where kvs: "result = JObj kvs"
    by (cases result) (simp_all add: lacks_field_def)
  show ?thesis
  proof (cases "map_of kvs ''record_date'' = None")
    case True
    with kvs show ?thesis by (simp add: parse_result_def)
  next
    case False
    with assms kvs obtain dt where dt: "row_date result = Some dt"
      and miss: "\<not> (has_item result ''country'' \<and> has_item result ''currency''
                  \<and> has_item result ''exchange_rate'')"
      by (auto simp: lacks_field_def)
    from dt obtain v where v: "getitem result ''record_date'' = Inr v" "strptime v = Inr dt"
      by (auto simp: row_date_def split: sum.splits)
    have item: "getitem result k = Inl KeyError" if "\<not> has_item result k" for k
      using that kvs by (auto simp: has_item_def split: option.splits)
    have ok: "getitem result k = Inr (item result k)" if "has_item result k" for k
      using that by (auto simp: has_item_def item_def split: sum.splits)
    from miss show ?thesis
      unfolding parse_result_def
      by (cases "has_item result ''country''"; cases "has_item result ''currency''")
         (auto simp: v item ok)
  qed
qed

lemma parse_result_well_formed:
  assumes "complete_row result" "hashable (item result ''country'')"
  shows "\<exists>d'. parse_result q d result = Inr d'"
  using assms(2)
  by (auto simp: parse_result_complete [OF assms(1)] contains_key_def)

lemma parse_results_lacks_field:
  assumes "\<forall>r \<in> set good. complete_row r \<and> hashable (item r ''country'')"
    and "lacks_field bad"
  shows "parse_results q d (good @ bad # rest) = Inl KeyError"
  using assms(1)
proof (induction good arbitrary: d)
  case Nil
  then show ?case by (simp add: parse_result_lacks_field [OF assms(2)])
next
  case (Cons r good)
  then obtain d' where "parse_result q d r = Inr d'"
    using parse_result_well_formed [of r q d] by auto
  with Cons show ?case by simp
qed

subsection \<open>The example payload\<close>

lemma example_quarter:
  "find_last_quarter_date example_clock = Inr \<lparr>year = 2023, month = 9, day = 30\<rparr>"
  using last_quarter_later_months [of example_clock]
  by (simp add: example_clock_def valid_date_def days_in_month_def)

lemma ok_response_simps:
  "\<not> (400 \<le> status_code (ok_response results) \<and> status_code (ok_response results) < 600)"
  "json_body (ok_response results) = Some (JObj [(''data'', JArr results)])"
  "getitem (JObj [(''data'', JArr results)]) ''data'' = Inr (JArr results)"
  by (simp_all add: ok_response_def)

lemma api_row_fields:
  "getitem (api_row d c n x) ''record_date'' = Inr (JStr d)"
  "getitem (api_row d c n x) ''country'' = Inr (JStr c)"
  "getitem (api_row d c n x) ''currency'' = Inr (JStr n)"
  "getitem (api_row d c n x) ''exchange_rate'' = Inr (JStr x)"
  by (simp_all add: api_row_def)

lemma api_row_items:
  "item (api_row d c n x) ''country'' = JStr c"
  "row_currency (api_row d c n x) = Currency (JStr c) (JStr n) (JStr x)"
  "row_date (api_row d c n x) = (case strptime_ymd d of Inr t \<Rightarrow> Some t | Inl e \<Rightarrow> None)"
  by (simp_all add: item_def row_currency_def row_date_def api_row_fields)

lemma example_dates:
  "strptime_ymd ''2023-09-30'' = Inr \<lparr>year = 2023, month = 9, day = 30\<rparr>"
  "strptime_ymd ''2023-06-30'' = Inr \<lparr>year = 2023, month = 6, day = 30\<rparr>"
  "strptime_ymd ''2023-09-31'' = Inl ValueError"
  by code_simp+

lemma api_row_named:
  "strptime_ymd d = Inr t \<Longrightarrow> named_row (api_row d c n x)"
  by (simp add: named_row_def complete_row_def has_item_def api_row_fields api_row_items
      is_string_def)

lemma example_parse:
  "parse_treasury_response example_clock (ok_response example_rows) =
     Inr [(JStr ''Germany'',
           [Currency (JStr ''Germany'') (JStr ''Euro'') (JStr ''0.94''),
            Currency (JStr ''Germany'') (JStr ''Other'') (JStr ''1.1'')])]"
  by (simp add: parse_treasury_response_def handle_request_errors_Inr
      parse_treasury_response_body_rows [OF ok_response_simps example_quarter]
      example_rows_def parse_result_def api_row_fields example_dates contains_key_def
      append_to_def del: strptime_ymd.simps)

lemma wrong_type_leaks_type_error:
  "parse_treasury_response example_clock \<lparr>status_code = 200, json_body = Some (JArr [])\<rparr>
     = Inl TypeError"
  by (simp add: parse_treasury_response_def handle_request_errors_def
      parse_treasury_response_body_def raise_for_status_def json_of_def example_quarter)

subsection \<open>The claims about the parser\<close>

text \<open>
  Claim C3. For a response that is not an HTTP error and whose payload holds, under
  \<^verbatim>\<open>data\<close>, rows with their four fields and a string for the country, the parser returns a
  mapping with one key for each country that has a row dated at the resolved quarter end,
  and under it the currencies of exactly those rows, in the order of the payload; a country
  with no such row is no key. For the payload of two such rows for Germany and an earlier
  row for France this is the single key Germany with its two currencies.
\<close>

theorem parse_treasury_response_groups:
  assumes "\<not> (400 \<le> status_code response \<and> status_code response < 600)"
    and "json_body response = Some payload"
    and "getitem payload ''data'' = Inr (JArr results)"
    and "find_last_quarter_date w = Inr q"
    and "\<forall>r \<in> set results. named_row r"
  shows "\<exists>currency_dict. parse_treasury_response w response = Inr currency_dict \<and>
           distinct (map fst currency_dict) \<and>
           (\<forall>k \<in> fst ` set currency_dict. is_string k) \<and>
           (\<forall>c. map_of currency_dict (JStr c) =
              (let rows = filter (\<lambda>r. row_date r = Some q \<and> item r ''country'' = JStr c) results
               in if rows = [] then None else Some (map row_currency rows)))"
proof -
  have "distinct (map fst ([] :: currency_dict))" "string_keys []"
    by (simp_all add: string_keys_def)
  from parse_results_grouping [OF assms(5) this, of q] obtain d where d:
    "parse_results q [] results = Inr d" "distinct (map fst d)" "string_keys d"
    "\<forall>c. map_of d (JStr c) = merge (map_of [] (JStr c)) (map row_currency
        (filter (\<lambda>r. row_date r = Some q \<and> item r ''country'' = JStr c) results))"
    by blast
  have "parse_treasury_response w response = Inr d"
    using d(1) by (simp add: parse_treasury_response_def handle_request_errors_Inr
        parse_treasury_response_body_rows [OF assms(1-4)])
  moreover have "\<forall>k \<in> fst ` set d. is_string k"
    using d(3) by (auto simp: string_keys_def)
  moreover have "\<forall>c. map_of d (JStr c) =
      (let rows = filter (\<lambda>r. row_date r = Some q \<and> item r ''country'' = JStr c) results
       in if rows = [] then None else Some (map row_currency rows))"
    using d(4) by (simp add: merge_def Let_def)
  ultimately show ?thesis using d(2) by blast
qed

theorem parse_treasury_response_groups_witness:
  "\<not> (400 \<le> status_code (ok_response example_rows) \<and> status_code (ok_response example_rows) < 600) \<and>
   json_body (ok_response example_rows) = Some (JObj [(''data'', JArr example_rows)]) \<and>
   getitem (JObj [(''data'', JArr example_rows)]) ''data'' = Inr (JArr example_rows) \<and>
   find_last_quarter_date example_clock = Inr \<lparr>year = 2023, month = 9, day = 30\<rparr> \<and>
   named_row (api_row ''2023-09-30'' ''Germany'' ''Euro'' ''0.94'') \<and>
   named_row (api_row ''2023-09-30'' ''Germany'' ''Other'' ''1.1'') \<and>
   named_row (api_row ''2023-06-30'' ''France'' ''Euro'' ''0.95'') \<and>
   (\<exists>currency_dict.
      parse_treasury_response example_clock (ok_response example_rows) = Inr currency_dict \<and>
      map fst currency_dict = [JStr ''Germany''] \<and>
      map_of currency_dict (JStr ''Germany'') =
        Some [Currency (JStr ''Germany'') (JStr ''Euro'') (JStr ''0.94''),
              Currency (JStr ''Germany'') (JStr ''Other'') (JStr ''1.1'')] \<and>
      map_of currency_dict (JStr ''France'') = None)"
proof -
  have rows: "\<forall>r \<in> set example_rows. named_row r"
    by (simp add: example_rows_def api_row_named [OF example_dates(1)]
        api_row_named [OF example_dates(2)])
  from parse_treasury_response_groups [OF ok_response_simps example_quarter rows]
  obtain d where d: "parse_treasury_response example_clock (ok_response example_rows) = Inr d"
    and m: "\<forall>c. map_of d (JStr c) =
      (let rows = filter (\<lambda>r. row_date r = Some \<lparr>year = 2023, month = 9, day = 30\<rparr>
                              \<and> item r ''country'' = JStr c) example_rows
       in if rows = [] then None else Some (map row_currency rows))"
    by blast
  have "map_of d (JStr ''Germany'') =
        Some [Currency (JStr ''Germany'') (JStr ''Euro'') (JStr ''0.94''),
              Currency (JStr ''Germany'') (JStr ''Other'') (JStr ''1.1'')]"
    using m [rule_format, of "''Germany''"]
    by (simp add: example_rows_def api_row_items example_dates del: strptime_ymd.simps)
  moreover have "map_of d (JStr ''France'') = None"
    using m [rule_format, of "''France''"]
    by (simp add: example_rows_def api_row_items example_dates del: strptime_ymd.simps)
  moreover have "map fst d = [JStr ''Germany'']"
    using d by (auto simp: example_parse)
  ultimately show ?thesis
    using d rows example_quarter by (simp add: ok_response_simps example_rows_def)
qed

text \<open>
  Claim C6. When the rows under \<^verbatim>\<open>data\<close> are none, or are complete rows none of which is
  dated at the resolved quarter end, the parser returns the empty mapping and raises nothing.
\<close>

theorem parse_treasury_response_no_match:
  assumes "\<not> (400 \<le> status_code response \<and> status_code response < 600)"
    and "json_body response = Some payload"
    and "getitem payload ''data'' = Inr (JArr results)"
    and "find_last_quarter_date w = Inr q"
    and "\<forall>r \<in> set results. complete_row r \<and> row_date r \<noteq> Some q"
  shows "parse_treasury_response w response = Inr []"
  by (simp add: parse_treasury_response_def handle_request_errors_Inr
      parse_treasury_response_body_rows [OF assms(1-4)] parse_results_no_match [OF assms(5)])

theorem parse_treasury_response_no_match_witness:
  "\<not> (400 \<le> status_code (ok_response []) \<and> status_code (ok_response []) < 600) \<and>
   json_body (ok_response []) = Some (JObj [(''data'', JArr [])]) \<and>
   getitem (JObj [(''data'', JArr [])]) ''data'' = Inr (JArr []) \<and>
   find_last_quarter_date example_clock = Inr \<lparr>year = 2023, month = 9, day = 30\<rparr> \<and>
   parse_treasury_response example_clock (ok_response []) = Inr [] \<and>
   complete_row (api_row ''2023-06-30'' ''France'' ''Euro'' ''0.95'') \<and>
   row_date (api_row ''2023-06-30'' ''France'' ''Euro'' ''0.95'')
     \<noteq> Some \<lparr>year = 2023, month = 9, day = 30\<rparr> \<and>
   parse_treasury_response example_clock
     (ok_response [api_row ''2023-06-30'' ''France'' ''Euro'' ''0.95'']) = Inr []"
  using parse_treasury_response_no_match
      [OF ok_response_simps example_quarter, of "[]"]
    parse_treasury_response_no_match
      [OF ok_response_simps example_quarter, of "[api_row ''2023-06-30'' ''France'' ''Euro'' ''0.95'']"]
    api_row_named [OF example_dates(2), of "''France''" "''Euro''" "''0.95''"]
    example_quarter
  by (simp add: ok_response_simps api_row_items example_dates named_row_def
      del: strptime_ymd.simps)

text \<open>
  Claim C7. In every mapping the parser returns, no key maps to the empty list: a key is
  created with its first currency and later currencies are appended.
\<close>

theorem parse_treasury_response_nonempty_lists:
  assumes "parse_treasury_response w response = Inr currency_dict"
  shows "\<forall>kv \<in> set currency_dict. snd kv \<noteq> []"
proof -
  from assms have "parse_treasury_response_body w response = Inr currency_dict"
    by (simp add: parse_treasury_response_def handle_request_errors_Inr)
  then obtain q results where "parse_results q [] results = Inr currency_dict"
    by (auto simp: parse_treasury_response_body_def and_then_Inr)
  then have "nonempty_values currency_dict"
    by (rule parse_results_nonempty) (simp add: nonempty_values_def)
  then show ?thesis by (simp add: nonempty_values_def)
qed

theorem parse_treasury_response_nonempty_lists_witness:
  "parse_treasury_response example_clock (ok_response example_rows) =
     Inr [(JStr ''Germany'',
           [Currency (JStr ''Germany'') (JStr ''Euro'') (JStr ''0.94''),
            Currency (JStr ''Germany'') (JStr ''Other'') (JStr ''1.1'')])] \<and>
   snd (JStr ''Germany'',
        [Currency (JStr ''Germany'') (JStr ''Euro'') (JStr ''0.94''),
         Currency (JStr ''Germany'') (JStr ''Other'') (JStr ''1.1'')]) \<noteq> []"
  using parse_treasury_response_nonempty_lists [OF example_parse] example_parse
  by simp

text \<open>
  Claim C4, as stated, fails: the decorator translates \<^verbatim>\<open>HTTPError\<close>, \<^verbatim>\<open>JSONDecodeError\<close>,
  \<^verbatim>\<open>KeyError\<close> and \<^verbatim>\<open>IndexError\<close> only. A row whose record date is not a date makes
  \<^verbatim>\<open>strptime\<close> raise \<^verbatim>\<open>ValueError\<close>, which leaves the parser as it is. And a status
  outside 200 to 299 is an error only from 400 on: a response with status 304 is parsed.
\<close>

theorem parse_treasury_response_leaks_value_error:
  "parse_treasury_response example_clock
     (ok_response [api_row ''2023-09-31'' ''Germany'' ''Euro'' ''0.94'']) = Inl ValueError \<and>
   parse_treasury_response example_clock
     \<lparr>status_code = 304, json_body = Some (JObj [(''data'', JArr [])])\<rparr> = Inr []"
proof -
  have "parse_treasury_response example_clock
     (ok_response [api_row ''2023-09-31'' ''Germany'' ''Euro'' ''0.94'']) = Inl ValueError"
    by (simp add: parse_treasury_response_def handle_request_errors_def
        parse_treasury_response_body_rows [OF ok_response_simps example_quarter]
        parse_result_def api_row_fields example_dates del: strptime_ymd.simps)
  moreover have "parse_treasury_response example_clock
     \<lparr>status_code = 304, json_body = Some (JObj [(''data'', JArr [])])\<rparr> = Inr []"
    by (simp add: parse_treasury_response_def handle_request_errors_def
        parse_treasury_response_body_def raise_for_status_def json_of_def example_quarter)
  ultimately show ?thesis by simp
qed

text \<open>
  Claim C4, amended. A response with a status from 400 to 599, a body that does not decode,
  and a row that lacks an expected key (after complete rows) each make the parser raise
  \<^verbatim>\<open>BusinessLogicException\<close>, as does every \<^verbatim>\<open>KeyError\<close> of its body; and no exception of
  the HTTP library, no \<^verbatim>\<open>KeyError\<close> and no \<^verbatim>\<open>IndexError\<close> ever leaves the parser.
\<close>

theorem parse_treasury_response_translates:
  "(400 \<le> status_code response \<and> status_code response < 600 \<longrightarrow>
      parse_treasury_response w response = Inl BusinessLogicException) \<and>
   (\<not> (400 \<le> status_code response \<and> status_code response < 600) \<and> json_body response = None \<longrightarrow>
      parse_treasury_response w response = Inl BusinessLogicException) \<and>
   (\<not> (400 \<le> status_code response \<and> status_code response < 600) \<and>
    json_body response = Some payload \<and> find_last_quarter_date w = Inr q \<and>
    getitem payload ''data'' = Inr (JArr (good @ bad # rest)) \<and>
    (\<forall>r \<in> set good. complete_row r \<and> hashable (item r ''country'')) \<and> lacks_field bad \<longrightarrow>
      parse_treasury_response w response = Inl BusinessLogicException) \<and>
   (parse_treasury_response_body w response = Inl KeyError \<longrightarrow>
      parse_treasury_response w response = Inl BusinessLogicException) \<and>
   (\<forall>e. parse_treasury_response w response \<noteq> Inl (Requests e)) \<and>
   parse_treasury_response w response \<noteq> Inl KeyError \<and>
   parse_treasury_response w response \<noteq> Inl IndexError"
proof -
  have status: "parse_treasury_response w response = Inl BusinessLogicException"
    if "400 \<le> status_code response \<and> status_code response < 600"
    using that
    by (simp add: parse_treasury_response_def handle_request_errors_def
        parse_treasury_response_body_def raise_for_status_def issubclass_def)
  have decode: "parse_treasury_response w response = Inl BusinessLogicException"
    if "\<not> (400 \<le> status_code response \<and> status_code response < 600)" "json_body response = None"
  proof -
    from that(1) have "raise_for_status response = Inr ()"
      by (simp add: raise_for_status_def)
    with that(2) show ?thesis
      by (simp add: parse_treasury_response_def handle_request_errors_def
          parse_treasury_response_body_def json_of_def issubclass_def)
  qed
  have field: "parse_treasury_response w response = Inl BusinessLogicException"
    if "\<not> (400 \<le> status_code response \<and> status_code response < 600)"
      "json_body response = Some payload" "find_last_quarter_date w = Inr q"
      "getitem payload ''data'' = Inr (JArr (good @ bad # rest))"
      "\<forall>r \<in> set good. complete_row r \<and> hashable (item r ''country'')" "lacks_field bad"
    unfolding parse_treasury_response_def
    by (rule handle_request_errors_KeyError)
       (simp add: parse_treasury_response_body_rows [OF that(1,2,4,3)]
          parse_results_lacks_field [OF that(5,6)])
  have key: "parse_treasury_response w response = Inl BusinessLogicException"
    if "parse_treasury_response_body w response = Inl KeyError"
    unfolding parse_treasury_response_def using that by (rule handle_request_errors_KeyError)
  have never: "parse_treasury_response w response \<noteq> Inl e"
    if "e \<noteq> BusinessLogicException" "e \<noteq> ValueError" "e \<noteq> TypeError" "e \<noteq> OverflowError" for e
    using parse_treasury_response_error [of w response e] that by blast
  show ?thesis
    using status decode field key never [of "Requests _"] never [of KeyError] never [of IndexError]
    by (intro conjI impI allI) simp_all
qed

theorem parse_treasury_response_translates_witness:
  "400 \<le> status_code \<lparr>status_code = 500, json_body = None\<rparr> \<and>
   status_code \<lparr>status_code = 500, json_body = None\<rparr> < 600 \<and>
   parse_treasury_response example_clock \<lparr>status_code = 500, json_body = None\<rparr>
     = Inl BusinessLogicException \<and>
   \<not> (400 \<le> status_code \<lparr>status_code = 200, json_body = None\<rparr> \<and>
        status_code \<lparr>status_code = 200, json_body = None\<rparr> < 600) \<and>
   json_body \<lparr>status_code = 200, json_body = None\<rparr> = None \<and>
   parse_treasury_response example_clock \<lparr>status_code = 200, json_body = None\<rparr>
     = Inl BusinessLogicException \<and>
   complete_row (api_row ''2023-06-30'' ''France'' ''Euro'' ''0.95'') \<and>
   hashable (item (api_row ''2023-06-30'' ''France'' ''Euro'' ''0.95'') ''country'') \<and>
   lacks_field short_row \<and>
   parse_treasury_response_body example_clock
     (ok_response [api_row ''2023-06-30'' ''France'' ''Euro'' ''0.95'', short_row]) = Inl KeyError \<and>
   parse_treasury_response example_clock
     (ok_response [api_row ''2023-06-30'' ''France'' ''Euro'' ''0.95'', short_row])
     = Inl BusinessLogicException"
proof -
  let ?good = "api_row ''2023-06-30'' ''France'' ''Euro'' ''0.95''"
  have good: "complete_row ?good" "hashable (item ?good ''country'')"
    using api_row_named [OF example_dates(2), of "''France''" "''Euro''" "''0.95''"]
    by (simp_all add: named_row_def api_row_items)
  have short: "lacks_field short_row"
    by (simp add: lacks_field_def short_row_def row_date_def has_item_def example_dates
        del: strptime_ymd.simps)
  have body: "parse_treasury_response_body example_clock (ok_response [?good, short_row]) = Inl KeyError"
    using parse_results_lacks_field [of "[?good]" short_row _ _ "[]"] good short
    by (simp add: parse_treasury_response_body_rows [OF ok_response_simps example_quarter])
  from parse_treasury_response_translates
      [of "\<lparr>status_code = 500, json_body = None\<rparr>" example_clock]
    parse_treasury_response_translates
      [of "\<lparr>status_code = 200, json_body = None\<rparr>" example_clock]
    parse_treasury_response_translates
      [of "ok_response [?good, short_row]" example_clock "JObj [(''data'', JArr [?good, short_row])]"
          "\<lparr>year = 2023, month = 9, day = 30\<rparr>" "[?good]" short_row "[]"]
    good short body
  show ?thesis
    by (simp add: ok_response_simps example_quarter)
qed

section \<open>Properties of rounding\<close>

text \<open>
  The helpers of \<open>round_double\<close> do what their names say: \<open>div_half_even\<close> is within half a
  unit of the quotient, \<open>bits\<close> is the length in binary, \<open>floor_log2\<close> brackets the fraction
  between two powers of two, and the result of \<open>round_double\<close> is within half a unit in the
  last place of the fraction.
\<close>

lemma div_half_even_nearest:
  assumes "0 < b"
  shows "\<bar>2 * (a - b * div_half_even a b)\<bar> \<le> b"
proof -
  have a: "a = b * (a div b) + a mod b" by simp
  have r: "0 \<le> a mod b" "a mod b < b" using assms by simp_all
  have up: "a - b * (a div b + 1) = a mod b - b"
    using a by (simp add: algebra_simps)
  have dn: "a - b * (a div b) = a mod b"
    using a by (simp add: algebra_simps)
  consider "2 * (a mod b) < b" | "b < 2 * (a mod b)" | "2 * (a mod b) = b" by linarith
  then show ?thesis
  proof cases
    case 1
    then have "div_half_even a b = a div b" by (simp add: div_half_even_def Let_def)
    with 1 r dn show ?thesis by simp
  next
    case 2
    then have "div_half_even a b = a div b + 1" by (simp add: div_half_even_def Let_def)
    with 2 r up show ?thesis by simp
  next
    case 3
    then have d: "div_half_even a b = a div b \<or> div_half_even a b = a div b + 1"
      by (simp add: div_half_even_def Let_def)
    have "2 * (a mod b - b) = - b"
      using 3 by (simp add: algebra_simps)
    with 3 assms have "\<bar>2 * (a mod b)\<bar> \<le> b" "\<bar>2 * (a mod b - b)\<bar> \<le> b"
      by simp_all
    with d show ?thesis
      by (elim disjE) (simp_all only: up dn)
  qed
qed

lemma bits_nonneg: "0 \<le> bits n"
  by (induction n rule: bits.induct) (subst bits.simps, simp)

lemma bits_pos: "0 < n \<Longrightarrow> 0 < bits n"
  using bits_nonneg [of "n div 2"] by (subst bits.simps) simp

lemma bits_bounds:
  "0 < n \<Longrightarrow> 2 ^ nat (bits n - 1) \<le> n \<and> n < 2 ^ nat (bits n)"
proof (induction n rule: bits.induct)
  case (1 n)
  show ?case
  proof (cases "n = 1")
    case True
    have "bits 1 = 1" by (simp add: bits.simps)
    with True show ?thesis by simp
  next
    case False
    with 1(2) have h: "0 < n div 2" by simp
    with 1 have ih: "2 ^ nat (bits (n div 2) - 1) \<le> n div 2" "n div 2 < 2 ^ nat (bits (n div 2))"
      by simp_all
    have pos: "0 < bits (n div 2)" using h by (rule bits_pos)
    have b: "bits n = 1 + bits (n div 2)"
      using 1(2) by (subst bits.simps) simp
    have e1: "nat (bits n - 1) = Suc (nat (bits (n div 2) - 1))"
      using pos b by simp
    have e2: "nat (bits n) = Suc (nat (bits (n div 2)))"
      using pos b by simp
    from ih show ?thesis unfolding e1 e2 by simp linarith
  qed
qed

lemma pow_nat_add: "0 \<le> i \<Longrightarrow> 0 \<le> j \<Longrightarrow> (2::int) ^ nat (i + j) = 2 ^ nat i * 2 ^ nat j"
  by (simp add: nat_add_distrib power_add)

lemma floor_log2_bounds:
  assumes "0 < p" "0 < q"
  shows "shl q (floor_log2 p q) \<le> shl p (- floor_log2 p q)"
    and "shl p (- (floor_log2 p q + 1)) < shl q (floor_log2 p q + 1)"
proof -
  let ?a = "bits p" and ?b = "bits q"
  let ?k = "?a - ?b"
  from bits_bounds [OF assms(1)] have p: "2 ^ nat (?a - 1) \<le> p" "p < 2 ^ nat ?a" by simp_all
  from bits_bounds [OF assms(2)] have q: "2 ^ nat (?b - 1) \<le> q" "q < 2 ^ nat ?b" by simp_all
  have a: "0 < ?a" and b: "0 < ?b" using assms by (simp_all add: bits_pos)
  have upper: "shl p (- (?k + 1)) < shl q (?k + 1)"
  proof (cases "0 < ?k + 1")
    case True
    have "p < 2 ^ nat ?a" by (rule p(2))
    also have "nat ?a = nat ((?b - 1) + (?k + 1))" by simp
    also have "(2::int) ^ \<dots> = 2 ^ nat (?b - 1) * 2 ^ nat (?k + 1)"
      using b True by (intro pow_nat_add) simp_all
    also have "\<dots> \<le> q * 2 ^ nat (?k + 1)"
      using q(1) by (intro mult_right_mono) simp_all
    finally show ?thesis using True by (simp add: shl_def)
  next
    case False
    then have n: "0 \<le> - (?k + 1)" by simp
    have "p * 2 ^ nat (- (?k + 1)) < 2 ^ nat ?a * 2 ^ nat (- (?k + 1))"
      using p(2) by (intro mult_strict_right_mono) simp_all
    also have "\<dots> = 2 ^ nat (?a + (- (?k + 1)))"
      using a n by (subst pow_nat_add) simp_all
    also have "?a + (- (?k + 1)) = ?b - 1" by simp
    finally have "p * 2 ^ nat (- (?k + 1)) < q" using q(1) by simp
    then show ?thesis using False by (auto simp: shl_def)
  qed
  have lower: "shl q (?k - 1) \<le> shl p (- (?k - 1))"
  proof (cases "0 < ?k - 1")
    case True
    have "q * 2 ^ nat (?k - 1) \<le> 2 ^ nat ?b * 2 ^ nat (?k - 1)"
      using q(2) by (intro mult_right_mono) simp_all
    also have "\<dots> = 2 ^ nat (?b + (?k - 1))"
      using b True by (subst pow_nat_add) simp_all
    also have "?b + (?k - 1) = ?a - 1" by simp
    finally have "q * 2 ^ nat (?k - 1) \<le> p" using p(1) by simp
    then show ?thesis using True by (simp add: shl_def)
  next
    case False
    then have n: "0 \<le> - (?k - 1)" by simp
    have "q \<le> 2 ^ nat ?b" using q(2) by simp
    also have "nat ?b = nat ((?a - 1) + (- (?k - 1)))" by simp
    also have "(2::int) ^ \<dots> = 2 ^ nat (?a - 1) * 2 ^ nat (- (?k - 1))"
      using a n by (intro pow_nat_add) simp_all
    also have "\<dots> \<le> p * 2 ^ nat (- (?k - 1))"
      using p(1) by (intro mult_right_mono) simp_all
    finally show ?thesis using False by (auto simp: shl_def)
  qed
  show "shl q (floor_log2 p q) \<le> shl p (- floor_log2 p q)"
    using lower by (simp add: floor_log2_def Let_def)
  show "shl p (- (floor_log2 p q + 1)) < shl q (floor_log2 p q + 1)"
    using upper by (auto simp: floor_log2_def Let_def)
qed

lemma round_double_nearest:
  assumes "round_double p q = Some (n, s)" "0 < p" "0 < q"
  shows "\<bar>2 * (shl p (- s) - shl q s * n)\<bar> \<le> shl q s"
proof -
  from assms(1,2) have n: "n = div_half_even (shl p (- s)) (shl q s)"
    by (auto simp: round_double_def Let_def split: if_splits)
  have "0 < shl q s" using assms(3) by (simp add: shl_def)
  then show ?thesis unfolding n by (rule div_half_even_nearest)
qed

section \<open>Amounts as text\<close>

lemma is_digit_digit_char_nat: "0 \<le> k \<Longrightarrow> k < 10 \<Longrightarrow> is_digit (digit_char (nat k))"
  by (simp add: is_digit_digit_char)

lemma str_int_digits: "0 \<le> n \<Longrightarrow> list_all is_digit (str_int n) \<and> str_int n \<noteq> []"
proof (induction n rule: str_int.induct)
  case (1 n)
  show ?case
  proof (cases "n < 10")
    case True
    with 1(2) show ?thesis
      by (subst str_int.simps, subst (2) str_int.simps) (simp add: is_digit_digit_char_nat)
  next
    case False
    then have "0 \<le> n div 10" by simp
    with 1(1) False have "list_all is_digit (str_int (n div 10)) \<and> str_int (n div 10) \<noteq> []"
      by simp
    with False show ?thesis
      by (subst str_int.simps, subst (2) str_int.simps) (simp add: is_digit_digit_char_nat)
  qed
qed

lemma grouped_rev_commas:
  "list_all is_digit ds \<Longrightarrow> ds \<noteq> [] \<Longrightarrow> grouped_rev (commas ds)"
  by (induction ds rule: commas.induct) auto

lemma commas_last: "ds \<noteq> [] \<Longrightarrow> commas ds \<noteq> [] \<and> last (commas ds) = last ds"
  by (induction ds rule: commas.induct) auto

lemma group3_first:
  assumes "list_all is_digit ds" "ds \<noteq> []"
  obtains c r where "group3 ds = c # r" "is_digit c"
proof -
  from assms(2) have l: "commas (rev ds) \<noteq> []" "last (commas (rev ds)) = last (rev ds)"
    using commas_last [of "rev ds"] by simp_all
  then obtain ys y where y: "commas (rev ds) = ys @ [y]"
    by (cases "commas (rev ds)" rule: rev_cases) auto
  with l(2) assms have "y = hd ds" by (simp add: last_rev)
  with assms have "is_digit y" by (cases ds) auto
  with y that show ?thesis by (simp add: group3_def)
qed

lemma comma_not_digit [simp]: "\<not> is_digit CHR '',''" "\<not> is_digit CHR ''.''" "\<not> is_digit CHR ''-''"
  by (simp_all add: is_digit_def)

lemma filter_commas: "list_all is_digit ds \<Longrightarrow> filter is_digit (commas ds) = ds"
  by (induction ds rule: commas.induct) auto

lemma dec_val_snoc: "dec_val (ds @ [c]) = 10 * dec_val ds + int (digit_val c)"
  by (simp add: dec_val_def)

lemma dec_val_str_int: "0 \<le> n \<Longrightarrow> dec_val (str_int n) = n"
proof (induction n rule: str_int.induct)
  case (1 n)
  show ?case
  proof (cases "n < 10")
    case True
    with 1(2) show ?thesis
      by (subst str_int.simps) (simp add: dec_val_def digit_val_digit_char)
  next
    case False
    then have "0 \<le> n div 10" by simp
    with 1(1) False have "dec_val (str_int (n div 10)) = n div 10" by simp
    with False 1(2) show ?thesis
      by (subst str_int.simps) (simp add: dec_val_snoc digit_val_digit_char)
  qed
qed

lemma div_half_even_nonneg: "0 \<le> a \<Longrightarrow> 0 < b \<Longrightarrow> 0 \<le> div_half_even a b"
  by (auto simp: div_half_even_def Let_def pos_imp_zdiv_nonneg_iff)

lemma shl_nonneg: "0 \<le> n \<Longrightarrow> 0 \<le> shl n k"
  by (simp add: shl_def)

lemma shl_pos: "0 < n \<Longrightarrow> 0 < shl n k"
  by (simp add: shl_def)

lemma cents_nonneg: "finite_float x \<Longrightarrow> 0 \<le> cents x"
  by (cases x) (simp_all add: finite_float_def cents_def div_half_even_nonneg shl_nonneg shl_pos)

lemma format_2f_finite:
  "format_2f (Finite s m e) =
     (if s then ''-'' else '''') @ group3 (str_int (cents (Finite s m e) div 100)) @ ''.''
       @ [digit_char (nat (cents (Finite s m e) mod 100 div 10)),
          digit_char (nat (cents (Finite s m e) mod 10))]"
  by (simp add: format_2f_def cents_def Let_def)

lemma format_2f_money_text:
  assumes "finite_float x"
  shows "money_text (format_2f x)"
proof -
  from assms obtain s m e where x: "x = Finite s m e"
    by (cases x) (simp_all add: finite_float_def)
  let ?n = "cents x"
  from assms have n: "0 \<le> ?n" by (rule cents_nonneg)
  then have "0 \<le> ?n div 100" by simp
  then have ds: "list_all is_digit (str_int (?n div 100))" "str_int (?n div 100) \<noteq> []"
    using str_int_digits by blast+
  then have g: "grouped_rev (commas (rev (str_int (?n div 100))))"
    by (intro grouped_rev_commas) simp_all
  have d: "is_digit (digit_char (nat (?n mod 100 div 10)))" "is_digit (digit_char (nat (?n mod 10)))"
    by (simp_all add: is_digit_digit_char_nat)
  have "unsigned (format_2f x) = group3 (str_int (?n div 100)) @ ''.''
       @ [digit_char (nat (?n mod 100 div 10)), digit_char (nat (?n mod 10))]"
  proof (cases s)
    case True
    then show ?thesis by (simp add: x format_2f_finite unsigned_def)
  next
    case False
    obtain c r where cr: "group3 (str_int (?n div 100)) = c # r" "is_digit c"
      using ds by (rule group3_first)
    then have "c \<noteq> CHR ''-''" by auto
    with False cr(1) show ?thesis
      by (simp add: x format_2f_finite unsigned_def del: comma_not_digit)
  qed
  with g d show ?thesis
    by (simp add: money_text_def group3_def)
qed

lemma hundredths: "10 * (10 * (n div 100) + n mod 100 div 10) + n mod 10 = (n::int)"
proof -
  have a: "n div 100 = n div 10 div 10"
    using zdiv_zmult2_eq [of 10 n 10] by simp
  have "n mod 100 = 10 * (n div 10 mod 10) + n mod 10"
    using zmod_zmult2_eq [of 10 n 10] by simp
  then have b: "n mod 100 div 10 = n div 10 mod 10"
    by simp
  have "n = 10 * (n div 10) + n mod 10" by simp
  also have "n div 10 = 10 * (n div 10 div 10) + n div 10 mod 10" by simp
  finally show ?thesis unfolding a b by simp
qed

lemma format_2f_value:
  assumes "finite_float x"
  shows "dec_val (filter is_digit (format_2f x)) = cents x"
proof -
  from assms obtain s m e where x: "x = Finite s m e"
    by (cases x) (simp_all add: finite_float_def)
  let ?n = "cents x"
  from assms have n: "0 \<le> ?n" by (rule cents_nonneg)
  then have q: "0 \<le> ?n div 100" by simp
  then have ds: "list_all is_digit (str_int (?n div 100))"
    using str_int_digits by blast
  have f: "filter is_digit (group3 (str_int (?n div 100))) = str_int (?n div 100)"
    using ds by (simp add: group3_def rev_filter [symmetric] filter_commas)
  have "filter is_digit (format_2f x) = (str_int (?n div 100)
       @ [digit_char (nat (?n mod 100 div 10))]) @ [digit_char (nat (?n mod 10))]"
    by (simp add: x format_2f_finite f [unfolded x] is_digit_digit_char_nat)
  then have "dec_val (filter is_digit (format_2f x)) =
      10 * (10 * dec_val (str_int (?n div 100)) + int (digit_val (digit_char (nat (?n mod 100 div 10)))))
        + int (digit_val (digit_char (nat (?n mod 10))))"
    by (simp only: dec_val_snoc)
  also have "\<dots> = 10 * (10 * (?n div 100) + ?n mod 100 div 10) + ?n mod 10"
    using n by (simp add: dec_val_str_int [OF q] digit_val_digit_char)
  also have "\<dots> = ?n" by (rule hundredths)
  finally show ?thesis .
qed

section \<open>The conversion\<close>

text \<open>Some doubles as they are known: 0.1 is \<^verbatim>\<open>0x1.999999999999ap-4\<close>, and 0.1 * 3 is not 0.3.\<close>

lemma float_one_tenth: "float_literal ''0.1'' = Finite False 7205759403792794 (- 56)"
  by code_simp

lemma float_three_tenths:
  "fmul (float_literal ''0.1'') (float_literal ''3'') = Finite False 5404319552844596 (- 54)"
  "float_literal ''0.3'' = Finite False 5404319552844595 (- 54)"
  by code_simp+

lemma convert_numeric:
  assumes "py_float (conversion_rate self) = Inr rate"
  shows "convert self usd_amount =
     Inr (''$'' @ format_2f usd_amount @ '' USD = '' @ format_2f (fmul usd_amount rate)
            @ '' '' @ py_str (currency_name self))"
  using assms by (simp add: convert_def Let_def)

lemma convert_error:
  assumes "py_float (conversion_rate self) = Inl e"
  shows "convert self usd_amount = Inl e"
  using assms by (simp add: convert_def)

lemma py_float_error:
  "py_float v = Inl e \<Longrightarrow> e = ValueError \<or> e = TypeError \<or> e = OverflowError"
  by (cases v) (auto split: option.splits)

lemma float_100: "float_literal ''100.0'' = Finite False 7036874417766400 (- 46)"
  by code_simp

lemma float_094: "float_literal ''0.94'' = Finite False 8466767299456532 (- 53)"
  by code_simp

lemma fmul_100_094:
  "fmul (Finite False 7036874417766400 (- 46)) (Finite False 8466767299456532 (- 53))
     = Finite False 6614661952700416 (- 46)"
  by code_simp

lemma format_100: "format_2f (Finite False 7036874417766400 (- 46)) = ''100.00''"
  by code_simp

lemma format_94: "format_2f (Finite False 6614661952700416 (- 46)) = ''94.00''"
  by code_simp

lemma convert_germany:
  "convert (Currency (JStr ''Germany'') (JStr ''Euro'') (JFloat (float_literal ''0.94'')))
     (float_literal ''100.0'') = Inr ''$100.00 USD = 94.00 Euro''"
  by (simp add: convert_def Currency_def Let_def float_100 float_094 fmul_100_094 format_100 format_94
       del: fmul.simps)

lemma convert_germany_text:
  "convert (Currency (JStr ''Germany'') (JStr ''Euro'') (JStr ''0.94''))
     (float_literal ''100.0'') = Inr ''$100.00 USD = 94.00 Euro''"
proof -
  have "float_of_string ''0.94'' = Some (Finite False 8466767299456532 (- 53))"
    by code_simp
  then show ?thesis
    by (simp add: convert_def Currency_def Let_def float_100 fmul_100_094 format_100 format_94
       del: fmul.simps)
qed

lemma japan_example:
  "float_literal ''1234.5'' = Finite False 5429388417957888 (- 42)"
  "float_of_string ''147.5'' = Some (Finite False 5189694883102720 (- 45))"
  "fmul (Finite False 5429388417957888 (- 42)) (Finite False 5189694883102720 (- 45)) = Finite False 6256521809756160 (- 35)"
  "format_2f (Finite False 5429388417957888 (- 42)) = ''1,234.50''"
  "format_2f (Finite False 6256521809756160 (- 35)) = ''182,088.75''"
  "cents (Finite False 5429388417957888 (- 42)) = 123450"
  "cents (Finite False 6256521809756160 (- 35)) = 18208875"
  by code_simp+

text \<open>
  Claim C2. For a finite amount and a rate that \<^verbatim>\<open>float\<close> accepts, the product being finite,
  \<^verbatim>\<open>convert\<close> returns the dollar sign, the amount, \<^verbatim>\<open>USD =\<close>, the product of amount and
  rate, and the name of the currency; both numbers are written with commas between groups of
  three digits and exactly two decimals, and their digits are the value rounded to
  hundredths. For Germany, Euro and the rate 0.94 (a float, or the string of the feed),
  \<^verbatim>\<open>convert(100.0)\<close> is exactly \<^verbatim>\<open>$100.00 USD = 94.00 Euro\<close>.
\<close>

theorem convert_format:
  "(finite_float usd_amount \<and> py_float (conversion_rate self) = Inr rate \<and>
    finite_float (fmul usd_amount rate) \<longrightarrow>
      convert self usd_amount =
        Inr (''$'' @ format_2f usd_amount @ '' USD = '' @ format_2f (fmul usd_amount rate)
               @ '' '' @ py_str (currency_name self)) \<and>
      money_text (format_2f usd_amount) \<and>
      dec_val (filter is_digit (format_2f usd_amount)) = cents usd_amount \<and>
      money_text (format_2f (fmul usd_amount rate)) \<and>
      dec_val (filter is_digit (format_2f (fmul usd_amount rate))) = cents (fmul usd_amount rate)) \<and>
   convert (Currency (JStr ''Germany'') (JStr ''Euro'') (JFloat (float_literal ''0.94'')))
     (float_literal ''100.0'') = Inr ''$100.00 USD = 94.00 Euro'' \<and>
   convert (Currency (JStr ''Germany'') (JStr ''Euro'') (JStr ''0.94''))
     (float_literal ''100.0'') = Inr ''$100.00 USD = 94.00 Euro''"
  using convert_germany convert_germany_text
  by (simp add: convert_numeric format_2f_money_text format_2f_value)

theorem convert_format_witness:
  "finite_float (float_literal ''1234.5'') \<and>
   py_float (conversion_rate (Currency (JStr ''Japan'') (JStr ''Yen'') (JStr ''147.5'')))
     = Inr (Finite False 5189694883102720 (- 45)) \<and>
   finite_float (fmul (float_literal ''1234.5'') (Finite False 5189694883102720 (- 45))) \<and>
   convert (Currency (JStr ''Japan'') (JStr ''Yen'') (JStr ''147.5'')) (float_literal ''1234.5'')
     = Inr ''$1,234.50 USD = 182,088.75 Yen'' \<and>
   money_text ''1,234.50'' \<and> dec_val (filter is_digit ''1,234.50'') = 123450 \<and>
   money_text ''182,088.75'' \<and> dec_val (filter is_digit ''182,088.75'') = 18208875"
  using convert_format [of "float_literal ''1234.5''"
      "Currency (JStr ''Japan'') (JStr ''Yen'') (JStr ''147.5'')"
      "Finite False 5189694883102720 (- 45)"]
  by (simp add: japan_example Currency_def finite_float_def del: fmul.simps)

text \<open>
  The parser hands the exchange rate of a row to \<^verbatim>\<open>Currency\<close> as it finds it: a row whose
  rate is no number is parsed, and the mapping holds the text.
\<close>

lemma non_numeric_rate_is_parsed:
  "parse_treasury_response example_clock
     (ok_response [api_row ''2023-09-30'' ''Germany'' ''Euro'' ''abc'']) =
     Inr [(JStr ''Germany'', [Currency (JStr ''Germany'') (JStr ''Euro'') (JStr ''abc'')])]"
  by (simp add: parse_treasury_response_def handle_request_errors_Inr
      parse_treasury_response_body_rows [OF ok_response_simps example_quarter]
      parse_result_def api_row_fields example_dates contains_key_def
      del: strptime_ymd.simps)

text \<open>
  Claim C10. \<^verbatim>\<open>Currency\<close> stores any rate as it is given; \<^verbatim>\<open>float\<close> is applied to it in
  \<^verbatim>\<open>convert\<close> only. With a rate that is a string \<^verbatim>\<open>float\<close> rejects, \<^verbatim>\<open>convert\<close> raises
  \<^verbatim>\<open>ValueError\<close>; whatever \<^verbatim>\<open>float\<close> raises on the rate leaves \<^verbatim>\<open>convert\<close> unchanged and is
  neither \<^verbatim>\<open>BusinessLogicException\<close> nor \<^verbatim>\<open>DalException\<close>.
\<close>

theorem currency_rate_unchecked:
  "Currency country nm rate = \<lparr>country_name = country, currency_name = nm, conversion_rate = rate\<rparr> \<and>
   (float_of_string s = None \<longrightarrow>
      convert (Currency country nm (JStr s)) usd_amount = Inl ValueError) \<and>
   (\<forall>e. py_float rate = Inl e \<longrightarrow>
      convert (Currency country nm rate) usd_amount = Inl e \<and>
      e \<noteq> BusinessLogicException \<and> e \<noteq> DalException)"
proof -
  have "convert (Currency country nm (JStr s)) usd_amount = Inl ValueError"
    if "float_of_string s = None"
    using that by (simp add: convert_error Currency_def)
  moreover have "convert (Currency country nm rate) usd_amount = Inl e \<and>
      e \<noteq> BusinessLogicException \<and> e \<noteq> DalException" if "py_float rate = Inl e" for e
    using that py_float_error [OF that] by (auto simp: convert_error Currency_def)
  ultimately show ?thesis by (simp add: Currency_def)
qed

theorem currency_rate_unchecked_witness:
  "float_of_string ''abc'' = None \<and>
   convert (Currency (JStr ''Germany'') (JStr ''Euro'') (JStr ''abc'')) (float_literal ''100.0'')
     = Inl ValueError \<and>
   py_float JNull = Inl TypeError \<and>
   convert (Currency (JStr ''Germany'') (JStr ''Euro'') JNull) (float_literal ''100.0'')
     = Inl TypeError"
proof -
  have abc: "float_of_string ''abc'' = None" by code_simp
  with currency_rate_unchecked
    [of "JStr ''Germany''" "JStr ''Euro''" JNull "''abc''" "float_literal ''100.0''"]
  show ?thesis by (simp add: Currency_def)
qed

end
